theory Spec2Isabelle
  imports Main "HOL-Library.Word"
begin

section \<open>JavaScript values\<close>

text \<open>
  A JavaScript string is a sequence of UTF-16 code units and \<open>length\<close> counts code
  units, so a string is a list of 16-bit words. \<open>js\<close> writes an ASCII literal.
\<close>

type_synonym jschar = "16 word"
type_synonym jsstring = "jschar list"

definition js :: "string \<Rightarrow> jsstring" where
  "js s = map (\<lambda>c. word_of_nat (of_char c)) s"

definition SP :: jschar where
  "SP = 0x20"

text \<open>The bullet U+2022 that starts every tooltip line but the "no data" one.\<close>

definition BULLET :: jschar where
  "BULLET = 0x2022"

datatype error = TypeError

text \<open>
  The values a payload parsed from JSON is made of, and \<open>undefined\<close>, which reading a
  missing property gives. The number type \<open>'n\<close> is left open: the code does no
  arithmetic, it only hands numbers to the host's formatting functions (see \<open>host\<close>).
  An object is the list of its own properties in the order of their creation; the keys
  of an object built by \<open>JSON.parse\<close> are distinct, and a lookup takes the first
  binding.
\<close>

datatype 'n jsval =
    JUndefined
  | JNull
  | JBool bool
  | JNum 'n
  | JStr jsstring
  | JArr "'n jsval list"
  | JObj "(jsstring \<times> 'n jsval) list"

text \<open>
  What the code asks of the JavaScript host about a number: \<open>Number.isInteger\<close>,
  truthiness (false for \<open>0\<close>, \<open>-0\<close> and \<open>NaN\<close>), \<open>toLocaleString()\<close>,
  \<open>toLocaleString(undefined, {maximumFractionDigits: 1})\<close>, \<open>toFixed(1)\<close> and
  the conversion to a string. These are functions of the host (its locale data and its
  printing of IEEE doubles), not of this program; the theorems below hold for any such
  host.
\<close>

record 'n host =
  isInteger :: "'n \<Rightarrow> bool"
  numberTruthy :: "'n \<Rightarrow> bool"
  toLocaleString :: "'n \<Rightarrow> jsstring"
  toLocaleStringMax1 :: "'n \<Rightarrow> jsstring"
  toFixed1 :: "'n \<Rightarrow> jsstring"
  numberToString :: "'n \<Rightarrow> jsstring"

fun truthy :: "'n host \<Rightarrow> 'n jsval \<Rightarrow> bool" where
  "truthy h JUndefined = False"
| "truthy h JNull = False"
| "truthy h (JBool b) = b"
| "truthy h (JNum x) = numberTruthy h x"
| "truthy h (JStr s) = (s \<noteq> [])"
| "truthy h (JArr xs) = True"
| "truthy h (JObj kvs) = True"

fun isNullish :: "'n jsval \<Rightarrow> bool" where
  "isNullish JUndefined = True"
| "isNullish JNull = True"
| "isNullish v = False"

subsection \<open>Property keys and their order\<close>

definition isDigit :: "jschar \<Rightarrow> bool" where
  "isDigit c = (0x30 \<le> c \<and> c \<le> 0x39)"

definition digitsValue :: "jsstring \<Rightarrow> nat" where
  "digitsValue s = foldl (\<lambda>n c. 10 * n + (unat c - 48)) 0 s"

text \<open>
  A property key is an array index when it is the canonical decimal numeral of an
  integer from 0 to \<open>2^32 - 2\<close>.
\<close>

definition arrayIndex :: "jsstring \<Rightarrow> nat option" where
  "arrayIndex s =
     (if s \<noteq> [] \<and> list_all isDigit s \<and> (length s = 1 \<or> hd s \<noteq> 0x30)
         \<and> digitsValue s < 4294967295
      then Some (digitsValue s) else None)"

fun decimal :: "nat \<Rightarrow> jsstring" where
  "decimal n =
     (if n < 10 then [word_of_nat (48 + n)]
      else decimal (n div 10) @ [word_of_nat (48 + n mod 10)])"

text \<open>
  The own property keys of an ordinary object come in the order of the language: the
  array indices first, ascending, then the other keys in the order of their creation.
\<close>

definition ownPropertyOrder :: "(jsstring \<times> 'a) list \<Rightarrow> (jsstring \<times> 'a) list" where
  "ownPropertyOrder kvs =
     map snd (sort_key fst
       (List.map_filter (\<lambda>kv. map_option (\<lambda>i. (i, kv)) (arrayIndex (fst kv))) kvs))
     @ filter (\<lambda>kv. arrayIndex (fst kv) = None) kvs"

fun ownEntries :: "'n jsval \<Rightarrow> error + (jsstring \<times> 'n jsval) list" where
  "ownEntries JUndefined = Inl TypeError"
| "ownEntries JNull = Inl TypeError"
| "ownEntries (JBool b) = Inr []"
| "ownEntries (JNum x) = Inr []"
| "ownEntries (JStr s) = Inr (zip (map decimal [0..<length s]) (map (\<lambda>c. JStr [c]) s))"
| "ownEntries (JArr xs) = Inr (zip (map decimal [0..<length xs]) xs)"
| "ownEntries (JObj kvs) = Inr (ownPropertyOrder kvs)"

definition Object_keys :: "'n jsval \<Rightarrow> error + jsstring list" where
  "Object_keys v = map_sum id (map fst) (ownEntries v)"

definition Object_values :: "'n jsval \<Rightarrow> error + 'n jsval list" where
  "Object_values v = map_sum id (map snd) (ownEntries v)"

text \<open>
  Reading a property and the \<open>in\<close> operator, on the own properties a JSON value
  has: the keys of an object, the indices of an array or a string. The program reads
  \<open>data\<close>, \<open>raw\<close>, \<open>value\<close> and \<open>metric\<close>, which no prototype provides, and
  \<open>rawData[label]\<close>. There a label found only on a prototype, or the \<open>length\<close> of an
  array, gives a built-in function, a prototype object or a number, and for each of
  those \<open>buildTooltipLabel\<close> returns the score line, as it does for a missing key.
\<close>

fun Get :: "'n jsval \<Rightarrow> jsstring \<Rightarrow> error + 'n jsval" where
  "Get JUndefined k = Inl TypeError"
| "Get JNull k = Inl TypeError"
| "Get (JBool b) k = Inr JUndefined"
| "Get (JNum x) k = Inr JUndefined"
| "Get (JStr s) k =
     Inr (case arrayIndex k of
            None \<Rightarrow> JUndefined
          | Some i \<Rightarrow> if i < length s then JStr [s ! i] else JUndefined)"
| "Get (JArr xs) k =
     Inr (case arrayIndex k of
            None \<Rightarrow> JUndefined
          | Some i \<Rightarrow> if i < length xs then xs ! i else JUndefined)"
| "Get (JObj kvs) k =
     Inr (case map_of kvs k of None \<Rightarrow> JUndefined | Some v \<Rightarrow> v)"

fun HasProperty :: "jsstring \<Rightarrow> 'n jsval \<Rightarrow> error + bool" where
  "HasProperty k (JObj kvs) = Inr (map_of kvs k \<noteq> None)"
| "HasProperty k (JArr xs) =
     Inr (case arrayIndex k of None \<Rightarrow> False | Some i \<Rightarrow> i < length xs)"
| "HasProperty k v = Inl TypeError"

subsection \<open>Conversion to a string\<close>

primrec collect :: "(error + 'a) list \<Rightarrow> error + 'a list" where
  "collect [] = Inr []"
| "collect (r # rs) =
     (case r of
        Inl e \<Rightarrow> Inl e
      | Inr x \<Rightarrow> (case collect rs of Inl e \<Rightarrow> Inl e | Inr xs \<Rightarrow> Inr (x # xs)))"

fun js_join :: "jsstring \<Rightarrow> jsstring list \<Rightarrow> jsstring" where
  "js_join sep [] = []"
| "js_join sep [x] = x"
| "js_join sep (x # y # ys) = x @ sep @ js_join sep (y # ys)"

text \<open>
  \<open>ToString\<close> of the language, on values parsed from JSON: an array prints its
  elements joined by commas, \<open>null\<close> and \<open>undefined\<close> elements as nothing; an
  object prints as \<open>[object Object]\<close> through the inherited \<open>toString\<close>, and the
  conversion throws when an own property of that name hides it (its value is never a
  function, and the inherited \<open>valueOf\<close> returns the object itself).
\<close>

primrec ToString :: "'n host \<Rightarrow> 'n jsval \<Rightarrow> error + jsstring" where
  "ToString h JUndefined = Inr (js ''undefined'')"
| "ToString h JNull = Inr (js ''null'')"
| "ToString h (JBool b) = Inr (if b then js ''true'' else js ''false'')"
| "ToString h (JNum x) = Inr (numberToString h x)"
| "ToString h (JStr s) = Inr s"
| "ToString h (JArr xs) =
     map_sum id (js_join (js '',''))
       (collect (map2 (\<lambda>x r. if isNullish x then Inr [] else r) xs (map (ToString h) xs)))"
| "ToString h (JObj kvs) =
     (if map_of kvs (js ''toString'') \<noteq> None then Inl TypeError
      else Inr (js ''[object Object]''))"

fun typeof :: "'n jsval \<Rightarrow> string" where
  "typeof JUndefined = ''undefined''"
| "typeof JNull = ''object''"
| "typeof (JBool b) = ''boolean''"
| "typeof (JNum x) = ''number''"
| "typeof (JStr s) = ''string''"
| "typeof (JArr xs) = ''object''"
| "typeof (JObj kvs) = ''object''"

section \<open>chart-renderer.js\<close>

definition MAX_LABEL_CHARS :: nat where
  "MAX_LABEL_CHARS = 14"

definition COLOR_DATA_POINT :: jsstring where
  "COLOR_DATA_POINT = js ''rgba(59, 130, 246, 1)''"

definition COLOR_LABEL :: jsstring where
  "COLOR_LABEL = js ''#cbd5e1''"

definition COLOR_LABEL_NULL :: jsstring where
  "COLOR_LABEL_NULL = js ''#3d4a5c''"

subsection \<open>extractDatetime\<close>

definition extractDatetime :: "'n jsval \<Rightarrow> error + 'n jsval" where
  "extractDatetime payload =
     (if typeof payload = ''string'' then Inr payload
      else if typeof payload \<noteq> ''object'' \<or> payload = JNull then Inr JNull
      else (case Object_values payload of
              Inl e \<Rightarrow> Inl e
            | Inr vs \<Rightarrow>
                Inr (case find (\<lambda>v. typeof v = ''string'') vs of
                       None \<Rightarrow> JNull
                     | Some v \<Rightarrow> v)))"

subsection \<open>wrapPointLabel\<close>

datatype text_or_lines = Text jsstring | Lines "jsstring list"

text \<open>\<open>text.split(c)\<close> for a separator of one code unit.\<close>

fun js_split :: "jschar \<Rightarrow> jsstring \<Rightarrow> jsstring list" where
  "js_split c [] = [[]]"
| "js_split c (x # xs) =
     (if x = c then [] # js_split c xs
      else (case js_split c xs of
              [] \<Rightarrow> [[x]]
            | w # ws \<Rightarrow> (x # w) # ws))"

text \<open>The loop over the words, with the two variables \<open>lines\<close> and \<open>line\<close> it updates.\<close>

primrec pack_words :: "jsstring list \<Rightarrow> jsstring list \<Rightarrow> jsstring \<Rightarrow> jsstring list" where
  "pack_words [] lines line = (if line \<noteq> [] then lines @ [line] else lines)"
| "pack_words (word # words) lines line =
     (let candidate = (if line \<noteq> [] then line @ [SP] @ word else word)
      in if length candidate > MAX_LABEL_CHARS \<and> line \<noteq> []
         then pack_words words (lines @ [line]) word
         else pack_words words lines candidate)"

definition wrapPointLabel :: "jsstring \<Rightarrow> text_or_lines" where
  "wrapPointLabel text =
     (if length text \<le> MAX_LABEL_CHARS then Text text
      else Lines (pack_words (js_split SP text) [] []))"

subsection \<open>formatNumber and formatRawEntry\<close>

definition formatNumber :: "'n host \<Rightarrow> 'n jsval \<Rightarrow> error + jsstring" where
  "formatNumber h v =
     (if v = JNull \<or> v = JUndefined then Inr (js ''N/A'')
      else (case v of
              JNum x \<Rightarrow>
                Inr (if isInteger h x then toLocaleString h x else toLocaleStringMax1 h x)
            | _ \<Rightarrow> ToString h v))"

text \<open>The result is a string or \<open>null\<close>: \<open>None\<close> is \<open>null\<close>.\<close>

definition formatRawEntry :: "'n host \<Rightarrow> 'n jsval \<Rightarrow> error + jsstring option" where
  "formatRawEntry h entry =
     (if \<not> truthy h entry then Inr None
      else (case Get entry (js ''value'') of
              Inl e \<Rightarrow> Inl e
            | Inr v \<Rightarrow>
                if v = JNull \<or> v = JUndefined then Inr None
                else (case formatNumber h v of
                        Inl e \<Rightarrow> Inl e
                      | Inr formatted \<Rightarrow>
                          (case Get entry (js ''metric'') of
                             Inl e \<Rightarrow> Inl e
                           | Inr m \<Rightarrow>
                               if truthy h m
                               then (case ToString h m of
                                       Inl e \<Rightarrow> Inl e
                                     | Inr ms \<Rightarrow> Inr (Some (formatted @ [SP] @ ms)))
                               else Inr (Some formatted)))))"

subsection \<open>buildTooltipLabel\<close>

text \<open>\<open>scoreValue.toFixed(1)\<close>: only a number has the method.\<close>

fun toFixedCall :: "'n host \<Rightarrow> 'n jsval \<Rightarrow> error + jsstring" where
  "toFixedCall h (JNum x) = Inr (toFixed1 h x)"
| "toFixedCall h v = Inl TypeError"

definition scoreLineOf :: "jsstring \<Rightarrow> jsstring" where
  "scoreLineOf fixed = [BULLET] @ js '' Score: '' @ fixed @ js '' / 100''"

text \<open>\<open>filter(Boolean)\<close> on an array of strings and \<open>null\<close>s keeps the non-empty strings.\<close>

definition filterBoolean :: "jsstring option list \<Rightarrow> jsstring list" where
  "filterBoolean ps = filter (\<lambda>s. s \<noteq> []) (List.map_filter id ps)"

definition buildTooltipLabel ::
    "'n host \<Rightarrow> jsstring \<Rightarrow> 'n jsval \<Rightarrow> bool \<Rightarrow> 'n jsval \<Rightarrow> error + text_or_lines" where
  "buildTooltipLabel h label scoreValue isNull rawData =
     (if isNull then Inr (Text (js ''No data available''))
      else (case toFixedCall h scoreValue of
              Inl e \<Rightarrow> Inl e
            | Inr fixed \<Rightarrow>
                let scoreLine = scoreLineOf fixed in
                if \<not> truthy h rawData then Inr (Text scoreLine)
                else (case HasProperty label rawData of
                        Inl e \<Rightarrow> Inl e
                      | Inr False \<Rightarrow> Inr (Text scoreLine)
                      | Inr True \<Rightarrow>
                          (case Get rawData label of
                             Inl e \<Rightarrow> Inl e
                           | Inr rawEntry \<Rightarrow>
                               if rawEntry = JNull \<or> rawEntry = JUndefined
                               then Inr (Text scoreLine)
                               else (case rawEntry of
                                       JArr es \<Rightarrow>
                                         (case collect (map (formatRawEntry h) es) of
                                            Inl e \<Rightarrow> Inl e
                                          | Inr ps \<Rightarrow>
                                              let parts = filterBoolean ps in
                                              if length parts > 0
                                              then Inr (Lines [[BULLET, SP] @ js_join (js '' | '') parts,
                                                               scoreLine])
                                              else Inr (Text scoreLine))
                                     | _ \<Rightarrow>
                                         (case formatRawEntry h rawEntry of
                                            Inl e \<Rightarrow> Inl e
                                          | Inr None \<Rightarrow> Inr (Text scoreLine)
                                          | Inr (Some formatted) \<Rightarrow>
                                              if formatted \<noteq> []
                                              then Inr (Lines [[BULLET, SP] @ formatted, scoreLine])
                                              else Inr (Text scoreLine)))))))"


subsection \<open>render\<close>

text \<open>
  What \<open>render\<close> hands to the charting library, as far as it depends on the payload:
  the labels, the data series with its per-point styling, and the three callbacks that
  close over the payload (tooltip title, tooltip body, colour of an axis label), each a
  function of the index the library calls it with. The drawing surface, the fixed
  colours and scale settings and the baseline plugin are left out.
\<close>

record 'n chart_config =
  data_labels :: "jsstring list"
  dataset_data :: "'n jsval list"
  pointBackgroundColor :: "jsstring list"
  pointBorderColor :: "jsstring list"
  pointRadius :: "nat list"
  pointHoverRadius :: "nat list"
  pointHitRadius :: "nat list"
  maintainAspectRatio :: bool
  tooltipTitle :: "nat \<Rightarrow> 'n jsval"
  tooltipLabel :: "nat \<Rightarrow> error + text_or_lines"
  pointLabelsColor :: "nat \<Rightarrow> jsstring"
  pointLabelsCallback :: "jsstring \<Rightarrow> text_or_lines"

text \<open>
  The tooltip body for the point at index \<open>i\<close>. Beyond the last axis all three array
  reads give \<open>undefined\<close>, and \<open>undefined.toFixed\<close> throws.
\<close>

definition tooltipLabelAt ::
    "'n host \<Rightarrow> jsstring list \<Rightarrow> 'n jsval list \<Rightarrow> bool list \<Rightarrow> 'n jsval \<Rightarrow> nat
       \<Rightarrow> error + text_or_lines" where
  "tooltipLabelAt h labels scoreValues nullFlags rawData i =
     (if i < length labels
      then buildTooltipLabel h (labels ! i) (scoreValues ! i) (nullFlags ! i) rawData
      else Inl TypeError)"

text \<open>The second argument is the option \<open>maintainAspectRatio\<close>, \<open>None\<close> when it is not given.\<close>

definition render :: "'n::zero host \<Rightarrow> bool option \<Rightarrow> 'n jsval \<Rightarrow> error + 'n chart_config" where
  "render h opt chartData =
     (case Get chartData (js ''data'') of
        Inl e \<Rightarrow> Inl e
      | Inr d \<Rightarrow>
     (case Object_keys d of
        Inl e \<Rightarrow> Inl e
      | Inr labels \<Rightarrow>
     (case Object_values d of
        Inl e \<Rightarrow> Inl e
      | Inr scoreValues \<Rightarrow>
     (case Get chartData (js ''raw'') of
        Inl e \<Rightarrow> Inl e
      | Inr raw \<Rightarrow>
          let rawData = (if truthy h raw then raw else JNull);
              nullFlags = map (\<lambda>v. v = JNull) scoreValues;
              displayValues = map (\<lambda>v. if v = JNull then JNum 0 else v) scoreValues;
              pointColors = map (\<lambda>n. if n then js ''transparent'' else COLOR_DATA_POINT) nullFlags;
              pointRadii = map (\<lambda>n. if n then 0 else 4) nullFlags;
              pointHoverRadii = map (\<lambda>n. if n then 0 else 6) nullFlags;
              pointHitRadii = map (\<lambda>n. if n then 0 else 8) nullFlags
          in Inr \<lparr> data_labels = labels,
                   dataset_data = displayValues,
                   pointBackgroundColor = pointColors,
                   pointBorderColor = pointColors,
                   pointRadius = pointRadii,
                   pointHoverRadius = pointHoverRadii,
                   pointHitRadius = pointHitRadii,
                   maintainAspectRatio = (case opt of None \<Rightarrow> True | Some b \<Rightarrow> b),
                   tooltipTitle = (\<lambda>i. if i < length labels then JStr (labels ! i) else JUndefined),
                   tooltipLabel = tooltipLabelAt h labels scoreValues nullFlags rawData,
                   pointLabelsColor =
                     (\<lambda>i. if i < length nullFlags \<and> nullFlags ! i
                          then COLOR_LABEL_NULL else COLOR_LABEL),
                   pointLabelsCallback = wrapPointLabel \<rparr>))))"

section \<open>A host to run the model on\<close>

text \<open>
  A host whose numbers are the integers, printed as a JavaScript engine in an en-US
  locale prints an integer of magnitude below \<open>2^53\<close>: grouped in threes by
  \<open>toLocaleString\<close>, with \<open>.0\<close> appended by \<open>toFixed(1)\<close>.
\<close>

fun groupRev :: "jsstring \<Rightarrow> jsstring" where
  "groupRev (a # b # c # d # ds) = a # b # c # 0x2C # groupRev (d # ds)"
| "groupRev ds = ds"

definition intDigits :: "int \<Rightarrow> jsstring" where
  "intDigits n = (if n < 0 then js ''-'' @ decimal (nat (- n)) else decimal (nat n))"

definition intGrouped :: "int \<Rightarrow> jsstring" where
  "intGrouped n =
     (if n < 0 then js ''-'' @ rev (groupRev (rev (decimal (nat (- n)))))
      else rev (groupRev (rev (decimal (nat n)))))"

definition intHost :: "int host" where
  "intHost =
     \<lparr> isInteger = (\<lambda>n. True),
       numberTruthy = (\<lambda>n. n \<noteq> 0),
       toLocaleString = intGrouped,
       toLocaleStringMax1 = intGrouped,
       toFixed1 = (\<lambda>n. intDigits n @ js ''.0''),
       numberToString = intDigits \<rparr>"

section \<open>The host's printing of numbers\<close>


definition DOT :: jschar where
  "DOT = 0x2E"

definition MINUS :: jschar where
  "MINUS = 0x2D"

datatype dec = Dec int nat

instantiation dec :: zero
begin

definition zero_dec :: dec where
  "zero_dec = Dec 0 0"

instance ..

end

fun signOf :: "dec \<Rightarrow> jsstring" where
  "signOf (Dec m e) = (if m < 0 then [MINUS] else [])"

fun scaled :: "nat \<Rightarrow> dec \<Rightarrow> nat" where
  "scaled k (Dec m e) = (nat \<bar>m\<bar> * 10 ^ k * 2 + 10 ^ e) div (2 * 10 ^ e)"

definition grouped :: "nat \<Rightarrow> jsstring" where
  "grouped n = rev (groupRev (rev (decimal n)))"

definition fractionDigits :: "nat \<Rightarrow> nat \<Rightarrow> jsstring" where
  "fractionDigits k f =
     rev (dropWhile (\<lambda>c. c = 0x30)
       (rev (replicate (k - length (decimal f)) 0x30 @ decimal f)))"

definition localeString :: "nat \<Rightarrow> dec \<Rightarrow> jsstring" where
  "localeString k x =
     (let n = scaled k x;
          fd = fractionDigits k (n mod 10 ^ k)
      in signOf x @ grouped (n div 10 ^ k) @ (if fd = [] then [] else [DOT] @ fd))"

definition fixed1 :: "dec \<Rightarrow> jsstring" where
  "fixed1 x =
     (let n = scaled 1 x
      in signOf x @ decimal (n div 10) @ [DOT] @ decimal (n mod 10))"

fun plainString :: "dec \<Rightarrow> jsstring" where
  "plainString (Dec m e) =
     (let fd = fractionDigits e (nat \<bar>m\<bar> mod 10 ^ e)
      in signOf (Dec m e) @ decimal (nat \<bar>m\<bar> div 10 ^ e) @ (if fd = [] then [] else [DOT] @ fd))"

fun isIntegerDec :: "dec \<Rightarrow> bool" where
  "isIntegerDec (Dec m e) = (m mod 10 ^ e = 0)"

fun nonZeroDec :: "dec \<Rightarrow> bool" where
  "nonZeroDec (Dec m e) = (m \<noteq> 0)"

text \<open>
  Modelled from the spec: the host of the spec's examples, with the printing functions
  above. \<open>String(x)\<close> prints the numeral itself, without grouping.
\<close>

definition specHost :: "dec host" where
  "specHost =
     \<lparr> isInteger = isIntegerDec,
       numberTruthy = nonZeroDec,
       toLocaleString = localeString 3,
       toLocaleStringMax1 = localeString 1,
       toFixed1 = fixed1,
       numberToString = plainString \<rparr>"

section \<open>Predicates of the statements\<close>

text \<open>The non-empty words of a sequence of lines, in order.\<close>

definition nonEmptyWords :: "jsstring list \<Rightarrow> jsstring list" where
  "nonEmptyWords ls = filter (\<lambda>w. w \<noteq> []) (concat (map (js_split SP) ls))"

text \<open>
  Every line break is forced: the first word of a line would not have fitted at the end
  of the line before it.
\<close>

fun greedyBreaks :: "jsstring list \<Rightarrow> bool" where
  "greedyBreaks (l1 # l2 # ls) =
     (MAX_LABEL_CHARS < length l1 + 1 + length (hd (js_split SP l2)) \<and> greedyBreaks (l2 # ls))"
| "greedyBreaks ls = True"

text \<open>
  The values whose conversion to a string does not throw, and the raw data all of whose
  entries have such a value and such a metric.
\<close>

fun printable :: "'n jsval \<Rightarrow> bool" where
  "printable (JArr xs) = list_all printable xs"
| "printable (JObj kvs) = (map_of kvs (js ''toString'') = None)"
| "printable v = True"

definition entryPrintable :: "'n jsval \<Rightarrow> bool" where
  "entryPrintable e =
     (case Get e (js ''value'') of
        Inl _ \<Rightarrow> True
      | Inr v \<Rightarrow>
          printable v \<and>
          (case Get e (js ''metric'') of Inl _ \<Rightarrow> True | Inr m \<Rightarrow> printable m))"

definition rawDetailPrintable :: "'n jsval \<Rightarrow> bool" where
  "rawDetailPrintable d =
     (case d of JArr es \<Rightarrow> list_all entryPrintable es | _ \<Rightarrow> entryPrintable d)"

definition rawPrintable :: "'n jsval \<Rightarrow> bool" where
  "rawPrintable raw =
     (case raw of
        JObj kvs \<Rightarrow> list_all (\<lambda>kv. rawDetailPrintable (snd kv)) kvs
      | JArr xs \<Rightarrow> list_all rawDetailPrintable xs
      | _ \<Rightarrow> True)"

definition isObject :: "'n jsval \<Rightarrow> bool" where
  "isObject v = (case v of JObj _ \<Rightarrow> True | JArr _ \<Rightarrow> True | _ \<Rightarrow> False)"

definition isNumber :: "'n jsval \<Rightarrow> bool" where
  "isNumber v = (case v of JNum _ \<Rightarrow> True | _ \<Rightarrow> False)"


definition nearestTenths :: "nat \<Rightarrow> dec \<Rightarrow> bool" where
  "nearestTenths t x =
     (case x of Dec m e \<Rightarrow>
        int (10 ^ e) * (2 * int t - 1) \<le> 20 * \<bar>m\<bar> \<and>
        20 * \<bar>m\<bar> < int (10 ^ e) * (2 * int t + 1))"

section \<open>Properties\<close>

subsection \<open>Splitting and joining\<close>

lemma js_split_not_Nil: "js_split c xs \<noteq> []"
  by (induction xs) (auto split: list.splits)

lemma js_split_append: "js_split c (a @ c # b) = js_split c a @ js_split c b"
  by (induction a) (auto split: list.splits simp: js_split_not_Nil)

lemma js_split_no_sep: "c \<notin> set w \<Longrightarrow> js_split c w = [w]"
  by (induction w) auto

lemma js_split_words_no_sep: "w \<in> set (js_split c xs) \<Longrightarrow> c \<notin> set w"
  by (induction xs arbitrary: w) (auto split: if_splits list.splits)

lemma js_join_append:
  "js_join sep (xs @ ys) =
     (if xs = [] then js_join sep ys
      else if ys = [] then js_join sep xs
      else js_join sep xs @ sep @ js_join sep ys)"
proof (induction sep xs rule: js_join.induct)
  case (1 sep)
  show ?case by simp
next
  case (2 sep x)
  show ?case by (cases ys) auto
next
  case (3 sep x y ys')
  then show ?case by auto
qed

lemma js_join_split: "js_join [c] (js_split c xs) = xs"
proof (induction xs)
  case Nil
  show ?case by simp
next
  case (Cons x xs)
  obtain w ws where s: "js_split c xs = w # ws"
    using js_split_not_Nil [of c xs] by (cases "js_split c xs") auto
  show ?case
    using Cons s by (cases ws) auto
qed

subsection \<open>The loop of wrapPointLabel\<close>

lemma pack_words_bound:
  "\<forall>l\<in>set lines. length l \<le> MAX_LABEL_CHARS \<or> l \<in> S \<Longrightarrow>
   length line \<le> MAX_LABEL_CHARS \<or> line \<in> S \<Longrightarrow>
   set ws \<subseteq> S \<Longrightarrow>
   \<forall>l\<in>set (pack_words ws lines line). length l \<le> MAX_LABEL_CHARS \<or> l \<in> S"
proof (induction ws arbitrary: lines line)
  case Nil
  then show ?case by auto
next
  case (Cons word ws)
  show ?case
  proof (cases "line = []")
    case True
    have "\<forall>l\<in>set (pack_words ws lines word). length l \<le> MAX_LABEL_CHARS \<or> l \<in> S"
      using Cons.prems by (intro Cons.IH) auto
    with True show ?thesis by simp
  next
    case False
    show ?thesis
    proof (cases "length (line @ [SP] @ word) > MAX_LABEL_CHARS")
      case True
      have "\<forall>l\<in>set (pack_words ws (lines @ [line]) word). length l \<le> MAX_LABEL_CHARS \<or> l \<in> S"
        using Cons.prems by (intro Cons.IH) auto
      with True False show ?thesis by simp
    next
      case nlong: False
      have "\<forall>l\<in>set (pack_words ws lines (line @ [SP] @ word)). length l \<le> MAX_LABEL_CHARS \<or> l \<in> S"
        using Cons.prems nlong by (intro Cons.IH) auto
      with nlong False show ?thesis by simp
    qed
  qed
qed

lemma pack_words_nonempty:
  "[] \<notin> set lines \<Longrightarrow> [] \<notin> set (pack_words ws lines line)"
proof (induction ws arbitrary: lines line)
  case Nil
  then show ?case by simp
next
  case (Cons word ws)
  show ?case
  proof (cases "line = []")
    case True
    with Cons.IH [of lines word] Cons.prems show ?thesis by simp
  next
    case False
    show ?thesis
    proof (cases "length (line @ [SP] @ word) > MAX_LABEL_CHARS")
      case True
      with False Cons.IH [of "lines @ [line]" word] Cons.prems show ?thesis by simp
    next
      case nlong: False
      with False Cons.IH [of lines "line @ [SP] @ word"] Cons.prems show ?thesis by simp
    qed
  qed
qed

lemma pack_words_words:
  "\<forall>w\<in>set ws. SP \<notin> set w \<Longrightarrow>
   nonEmptyWords (pack_words ws lines line) = nonEmptyWords (lines @ [line] @ ws)"
proof (induction ws arbitrary: lines line)
  case Nil
  then show ?case by (auto simp: nonEmptyWords_def)
next
  case (Cons word ws)
  then have w: "js_split SP word = [word]" and ws: "\<forall>w\<in>set ws. SP \<notin> set w"
    by (auto simp: js_split_no_sep)
  show ?case
  proof (cases "line = []")
    case True
    with Cons.IH [OF ws, of lines word] show ?thesis
      by (simp add: nonEmptyWords_def w)
  next
    case False
    show ?thesis
    proof (cases "length (line @ [SP] @ word) > MAX_LABEL_CHARS")
      case True
      with False Cons.IH [OF ws, of "lines @ [line]" word] show ?thesis
        by (simp add: nonEmptyWords_def w)
    next
      case nlong: False
      with False Cons.IH [OF ws, of lines "line @ [SP] @ word"] show ?thesis
        by (simp add: nonEmptyWords_def w js_split_append)
    qed
  qed
qed

lemma pack_words_join:
  "\<forall>w\<in>set ws. w \<noteq> [] \<Longrightarrow>
   js_join [SP] (pack_words ws lines line) =
   js_join [SP] (lines @ (if line = [] then [] else [line]) @ ws)"
proof (induction ws arbitrary: lines line)
  case Nil
  then show ?case by simp
next
  case (Cons word ws)
  then have word: "word \<noteq> []" and ws: "\<forall>w\<in>set ws. w \<noteq> []"
    by auto
  show ?case
  proof (cases "line = []")
    case True
    with Cons.IH [OF ws, of lines word] word show ?thesis
      by simp
  next
    case False
    show ?thesis
    proof (cases "length (line @ [SP] @ word) > MAX_LABEL_CHARS")
      case True
      with False Cons.IH [OF ws, of "lines @ [line]" word] word show ?thesis
        by simp
    next
      case nlong: False
      have "js_join [SP] (lines @ [line @ [SP] @ word] @ ws) =
            js_join [SP] (lines @ [line] @ word # ws)"
        by (cases ws) (auto simp: js_join_append)
      with nlong False Cons.IH [OF ws, of lines "line @ [SP] @ word"] show ?thesis
        by simp
    qed
  qed
qed

lemma greedyBreaks_snoc:
  "greedyBreaks (xs @ [y]) =
     (greedyBreaks xs \<and>
      (xs \<noteq> [] \<longrightarrow> MAX_LABEL_CHARS < length (last xs) + 1 + length (hd (js_split SP y))))"
proof (induction xs)
  case Nil
  show ?case by simp
next
  case (Cons x xs)
  then show ?case by (cases xs) auto
qed

lemma hd_js_split_append: "hd (js_split c (a @ c # b)) = hd (js_split c a)"
  using js_split_not_Nil [of c a] by (simp add: js_split_append)

lemma concat_js_split_words:
  "\<forall>w\<in>set ws. c \<notin> set w \<Longrightarrow> concat (map (js_split c) ws) = ws"
  by (induction ws) (auto simp: js_split_no_sep)

lemma pack_words_greedy:
  "\<forall>w\<in>set ws. SP \<notin> set w \<Longrightarrow>
   greedyBreaks lines \<Longrightarrow>
   (if line = [] then lines \<noteq> [] \<longrightarrow> MAX_LABEL_CHARS \<le> length (last lines)
    else greedyBreaks (lines @ [line])) \<Longrightarrow>
   greedyBreaks (pack_words ws lines line)"
proof (induction ws arbitrary: lines line)
  case Nil
  then show ?case by (simp split: if_splits)
next
  case (Cons word ws)
  then have w: "js_split SP word = [word]" and ws: "\<forall>w\<in>set ws. SP \<notin> set w"
    by (auto simp: js_split_no_sep)
  show ?case
  proof (cases "line = []")
    case True
    have "greedyBreaks (pack_words ws lines word)"
    proof (rule Cons.IH [OF ws])
      show "greedyBreaks lines" by (rule Cons.prems(2))
      show "if word = [] then lines \<noteq> [] \<longrightarrow> MAX_LABEL_CHARS \<le> length (last lines)
            else greedyBreaks (lines @ [word])"
        using Cons.prems(2,3) True by (auto simp add: greedyBreaks_snoc w)
    qed
    with True show ?thesis by simp
  next
    case False
    then have g: "greedyBreaks (lines @ [line])"
      using Cons.prems(3) by simp
    show ?thesis
    proof (cases "length (line @ [SP] @ word) > MAX_LABEL_CHARS")
      case True
      have "greedyBreaks (pack_words ws (lines @ [line]) word)"
      proof (rule Cons.IH [OF ws])
        show "greedyBreaks (lines @ [line])" by (rule g)
        show "if word = [] then lines @ [line] \<noteq> [] \<longrightarrow> MAX_LABEL_CHARS \<le> length (last (lines @ [line]))
              else greedyBreaks ((lines @ [line]) @ [word])"
        proof (cases "word = []")
          case True
          with \<open>length (line @ [SP] @ word) > MAX_LABEL_CHARS\<close> show ?thesis by simp
        next
          case False
          have "greedyBreaks ((lines @ [line]) @ [word])"
            unfolding greedyBreaks_snoc [of "lines @ [line]" word]
            using g \<open>length (line @ [SP] @ word) > MAX_LABEL_CHARS\<close> by (simp add: w)
          with False show ?thesis by simp
        qed
      qed
      with True False show ?thesis by simp
    next
      case nlong: False
      have "greedyBreaks (pack_words ws lines (line @ [SP] @ word))"
      proof (rule Cons.IH [OF ws])
        show "greedyBreaks lines" by (rule Cons.prems(2))
        show "if line @ [SP] @ word = [] then lines \<noteq> [] \<longrightarrow> MAX_LABEL_CHARS \<le> length (last lines)
              else greedyBreaks (lines @ [line @ [SP] @ word])"
          using g by (simp add: greedyBreaks_snoc hd_js_split_append)
      qed
      with nlong False show ?thesis by simp
    qed
  qed
qed

subsection \<open>wrapPointLabel\<close>

text \<open>
  C4: a text of at most 14 code units is returned unchanged. A longer one gives the lines
  of the greedy packing: no line is empty, a line longer than 14 is a single word of the
  text, the non-empty words of the lines are the non-empty words of the text in the same
  order (no word is split), and every break is forced. For "Critical Infrastructure" the
  lines are "Critical" and "Infrastructure"; "Fuel" is returned as it is.
\<close>

theorem wrapPointLabel_lines:
  "(length text \<le> 14 \<longrightarrow> wrapPointLabel text = Text text) \<and>
   (14 < length text \<longrightarrow>
      (\<exists>ls. wrapPointLabel text = Lines ls \<and>
         (\<forall>l\<in>set ls. l \<noteq> [] \<and>
            (length l \<le> 14 \<or> (14 < length l \<and> l \<in> set (js_split SP text)))) \<and>
         nonEmptyWords ls = nonEmptyWords [text] \<and>
         greedyBreaks ls)) \<and>
   wrapPointLabel (js ''Critical Infrastructure'') = Lines [js ''Critical'', js ''Infrastructure''] \<and>
   wrapPointLabel (js ''Fuel'') = Text (js ''Fuel'')"
proof (intro conjI impI)
  show "wrapPointLabel text = Text text" if "length text \<le> 14"
    using that by (simp add: wrapPointLabel_def MAX_LABEL_CHARS_def)
next
  assume long: "14 < length text"
  define ls where "ls = pack_words (js_split SP text) [] []"
  have nosep: "\<forall>w\<in>set (js_split SP text). SP \<notin> set w"
    using js_split_words_no_sep by blast
  have 1: "wrapPointLabel text = Lines ls"
    using long by (simp add: wrapPointLabel_def MAX_LABEL_CHARS_def ls_def)
  have b: "\<forall>l\<in>set ls. length l \<le> MAX_LABEL_CHARS \<or> l \<in> set (js_split SP text)"
    unfolding ls_def by (rule pack_words_bound) auto
  have n: "[] \<notin> set ls"
    unfolding ls_def by (rule pack_words_nonempty) simp
  have 2: "\<forall>l\<in>set ls. l \<noteq> [] \<and>
            (length l \<le> 14 \<or> (14 < length l \<and> l \<in> set (js_split SP text)))"
  proof
    fix l assume l: "l \<in> set ls"
    with n have "l \<noteq> []" by auto
    moreover from b l have "length l \<le> 14 \<or> l \<in> set (js_split SP text)"
      by (simp add: MAX_LABEL_CHARS_def)
    ultimately show "l \<noteq> [] \<and>
            (length l \<le> 14 \<or> (14 < length l \<and> l \<in> set (js_split SP text)))"
      by linarith
  qed
  have 3: "nonEmptyWords ls = nonEmptyWords [text]"
    unfolding ls_def using pack_words_words [OF nosep, of "[]" "[]"]
    by (simp add: nonEmptyWords_def concat_js_split_words [OF nosep])
  have 4: "greedyBreaks ls"
    unfolding ls_def by (rule pack_words_greedy [OF nosep]) simp_all
  from 1 2 3 4
  show "\<exists>ls. wrapPointLabel text = Lines ls \<and>
         (\<forall>l\<in>set ls. l \<noteq> [] \<and>
            (length l \<le> 14 \<or> (14 < length l \<and> l \<in> set (js_split SP text)))) \<and>
         nonEmptyWords ls = nonEmptyWords [text] \<and>
         greedyBreaks ls"
    by blast
next
  show "wrapPointLabel (js ''Critical Infrastructure'') = Lines [js ''Critical'', js ''Infrastructure'']"
    by (simp add: wrapPointLabel_def js_def MAX_LABEL_CHARS_def SP_def)
next
  show "wrapPointLabel (js ''Fuel'') = Text (js ''Fuel'')"
    by (simp add: wrapPointLabel_def js_def MAX_LABEL_CHARS_def SP_def)
qed

theorem wrapPointLabel_lines_witness:
  "length (js ''Fuel'') \<le> 14 \<and> wrapPointLabel (js ''Fuel'') = Text (js ''Fuel'') \<and>
   14 < length (js ''Wildland Urban Interface'') \<and>
   (\<exists>ls. wrapPointLabel (js ''Wildland Urban Interface'') = Lines ls \<and>
      (\<forall>l\<in>set ls. l \<noteq> [] \<and>
         (length l \<le> 14 \<or>
          (14 < length l \<and> l \<in> set (js_split SP (js ''Wildland Urban Interface''))))) \<and>
      nonEmptyWords ls = nonEmptyWords [js ''Wildland Urban Interface''] \<and>
      greedyBreaks ls)"
proof -
  have s: "length (js ''Fuel'') \<le> 14"
    by (simp add: js_def)
  have l: "14 < length (js ''Wildland Urban Interface'')"
    by (simp add: js_def)
  from wrapPointLabel_lines [of "js ''Fuel''"] s
  have 1: "wrapPointLabel (js ''Fuel'') = Text (js ''Fuel'')"
    by blast
  from wrapPointLabel_lines [of "js ''Wildland Urban Interface''"] l
  have 2: "\<exists>ls. wrapPointLabel (js ''Wildland Urban Interface'') = Lines ls \<and>
      (\<forall>l\<in>set ls. l \<noteq> [] \<and>
         (length l \<le> 14 \<or>
          (14 < length l \<and> l \<in> set (js_split SP (js ''Wildland Urban Interface''))))) \<and>
      nonEmptyWords ls = nonEmptyWords [js ''Wildland Urban Interface''] \<and>
      greedyBreaks ls"
    by blast
  from s l 1 2 show ?thesis
    by blast
qed

text \<open>
  C10: for a text longer than 14 code units whose words (the pieces between spaces) are
  all non-empty, \<open>wrapPointLabel\<close> returns lines, and joining them with single spaces
  gives the text back.
\<close>

theorem wrapPointLabel_join:
  assumes "14 < length text" and "\<forall>w\<in>set (js_split SP text). w \<noteq> []"
  shows "\<exists>ls. wrapPointLabel text = Lines ls \<and> js_join [SP] ls = text"
proof -
  have "js_join [SP] (pack_words (js_split SP text) [] []) = js_join [SP] (js_split SP text)"
    using pack_words_join [OF assms(2), of "[]" "[]"] by simp
  then have "js_join [SP] (pack_words (js_split SP text) [] []) = text"
    by (simp add: js_join_split)
  with assms(1) show ?thesis
    by (simp add: wrapPointLabel_def MAX_LABEL_CHARS_def)
qed

theorem wrapPointLabel_join_witness:
  "14 < length (js ''Wildland Urban Interface'') \<and>
   js_split SP (js ''Wildland Urban Interface'') = [js ''Wildland'', js ''Urban'', js ''Interface''] \<and>
   (\<exists>ls. wrapPointLabel (js ''Wildland Urban Interface'') = Lines ls \<and>
      js_join [SP] ls = js ''Wildland Urban Interface'')"
proof -
  have l: "14 < length (js ''Wildland Urban Interface'')"
    by (simp add: js_def)
  have w: "js_split SP (js ''Wildland Urban Interface'') = [js ''Wildland'', js ''Urban'', js ''Interface'']"
    by (simp add: js_def SP_def)
  have n: "\<forall>w\<in>set (js_split SP (js ''Wildland Urban Interface'')). w \<noteq> []"
    unfolding w by (simp add: js_def)
  from wrapPointLabel_join [OF l n] l w show ?thesis
    by blast
qed

subsection \<open>The order of own properties\<close>

lemma ownPropertyOrder_plain:
  "list_all (\<lambda>kv. arrayIndex (fst kv) = None) kvs \<Longrightarrow> ownPropertyOrder kvs = kvs"
proof -
  assume a: "list_all (\<lambda>kv. arrayIndex (fst kv) = None) kvs"
  then have "List.map_filter (\<lambda>kv. map_option (\<lambda>i. (i, kv)) (arrayIndex (fst kv))) kvs = []"
    by (induction kvs) auto
  moreover from a have "filter (\<lambda>kv. arrayIndex (fst kv) = None) kvs = kvs"
    by (induction kvs) auto
  ultimately show ?thesis
    by (simp add: ownPropertyOrder_def)
qed

lemma map_snd_index_part:
  "map snd (List.map_filter (\<lambda>kv. map_option (\<lambda>i. (i, kv)) (arrayIndex (fst kv))) kvs) =
   filter (\<lambda>kv. arrayIndex (fst kv) \<noteq> None) kvs"
  by (induction kvs) (auto split: option.splits)

lemma set_sorted_index_part:
  "set (map snd (sort_key fst
     (List.map_filter (\<lambda>kv. map_option (\<lambda>i. (i, kv)) (arrayIndex (fst kv))) kvs))) =
   {kv \<in> set kvs. arrayIndex (fst kv) \<noteq> None}"
proof -
  have "set (map snd (sort_key fst
     (List.map_filter (\<lambda>kv. map_option (\<lambda>i. (i, kv)) (arrayIndex (fst kv))) kvs))) =
     set (map snd (List.map_filter (\<lambda>kv. map_option (\<lambda>i. (i, kv)) (arrayIndex (fst kv))) kvs))"
    by simp
  then show ?thesis
    unfolding map_snd_index_part by simp
qed

lemma length_ownPropertyOrder: "length (ownPropertyOrder kvs) = length kvs"
proof -
  have "length (ownPropertyOrder kvs) =
        length (map snd (List.map_filter (\<lambda>kv. map_option (\<lambda>i. (i, kv)) (arrayIndex (fst kv))) kvs))
        + length (filter (\<lambda>kv. arrayIndex (fst kv) = None) kvs)"
    by (simp add: ownPropertyOrder_def)
  also have "\<dots> = length (filter (\<lambda>kv. arrayIndex (fst kv) \<noteq> None) kvs)
        + length (filter (\<lambda>kv. \<not> arrayIndex (fst kv) \<noteq> None) kvs)"
    unfolding map_snd_index_part by simp
  also have "\<dots> = length kvs"
    by (rule sum_length_filter_compl)
  finally show ?thesis .
qed

lemma set_ownPropertyOrder: "set (ownPropertyOrder kvs) = set kvs"
  unfolding ownPropertyOrder_def set_append set_sorted_index_part by auto

lemma Get_total: "Get c k = Inr d \<Longrightarrow> \<exists>r. Get c k' = Inr r"
  by (cases c) auto

lemma Object_keys_values:
  "Object_values d = Inr vs \<Longrightarrow>
   \<exists>es. ownEntries d = Inr es \<and> Object_keys d = Inr (map fst es) \<and> vs = map snd es"
  by (cases "ownEntries d") (auto simp: Object_values_def Object_keys_def)

lemma index_part_indices:
  "\<forall>p\<in>set (List.map_filter (\<lambda>kv. map_option (\<lambda>i. (i, kv)) (arrayIndex (fst kv))) kvs).
     arrayIndex (fst (snd p)) = Some (fst p)"
  by (induction kvs) (auto split: option.splits)

lemma map_filter_indices:
  "\<forall>p\<in>set ps. arrayIndex (fst (snd p)) = Some (fst p) \<Longrightarrow>
   List.map_filter (\<lambda>kv. arrayIndex (fst kv)) (map snd ps) = map fst ps"
  by (induction ps) auto

lemma map_filter_no_index:
  "List.map_filter (\<lambda>kv. arrayIndex (fst kv)) (filter (\<lambda>kv. arrayIndex (fst kv) = None) kvs) = []"
  by (induction kvs) auto

lemma map_filter_append:
  "List.map_filter f (xs @ ys) = List.map_filter f xs @ List.map_filter f ys"
  by (simp add: List.map_filter_def)

lemma sorted_ownPropertyOrder:
  "sorted (List.map_filter (\<lambda>kv. arrayIndex (fst kv)) (ownPropertyOrder kvs))"
proof -
  let ?X = "List.map_filter (\<lambda>kv. map_option (\<lambda>i. (i, kv)) (arrayIndex (fst kv))) kvs"
  have "\<forall>p\<in>set (sort_key fst ?X). arrayIndex (fst (snd p)) = Some (fst p)"
    using index_part_indices [of kvs] by simp
  then have "List.map_filter (\<lambda>kv. arrayIndex (fst kv)) (map snd (sort_key fst ?X)) =
             map fst (sort_key fst ?X)"
    by (rule map_filter_indices)
  then have "List.map_filter (\<lambda>kv. arrayIndex (fst kv)) (ownPropertyOrder kvs) =
             map fst (sort_key fst ?X)"
    by (simp add: ownPropertyOrder_def map_filter_append map_filter_no_index)
  then show ?thesis
    by simp
qed

lemma index_first_ownPropertyOrder:
  "ownPropertyOrder kvs =
   filter (\<lambda>kv. arrayIndex (fst kv) \<noteq> None) (ownPropertyOrder kvs)
   @ filter (\<lambda>kv. arrayIndex (fst kv) = None) kvs"
proof -
  let ?I = "map snd (sort_key fst
     (List.map_filter (\<lambda>kv. map_option (\<lambda>i. (i, kv)) (arrayIndex (fst kv))) kvs))"
  have "filter (\<lambda>kv. arrayIndex (fst kv) \<noteq> None) ?I = ?I"
    unfolding filter_id_conv set_sorted_index_part by simp
  moreover have "filter (\<lambda>kv. arrayIndex (fst kv) \<noteq> None)
                   (filter (\<lambda>kv. arrayIndex (fst kv) = None) kvs) = []"
    by (induction kvs) auto
  ultimately have "filter (\<lambda>kv. arrayIndex (fst kv) \<noteq> None) (ownPropertyOrder kvs) = ?I"
    unfolding ownPropertyOrder_def filter_append by simp
  then show ?thesis
    by (simp add: ownPropertyOrder_def)
qed

lemma ownPropertyOrder_single: "ownPropertyOrder [kv] = [kv]"
  by (cases "arrayIndex (fst kv)") (simp_all add: ownPropertyOrder_def)

lemma Object_values_JArr: "Object_values (JArr xs) = Inr xs"
  by (simp add: Object_values_def)

subsection \<open>render\<close>

lemma render_result:
  assumes d: "Get chartData (js ''data'') = Inr d"
    and es: "ownEntries d = Inr es"
  shows "\<exists>raw. Get chartData (js ''raw'') = Inr raw \<and>
     render h opt chartData =
       Inr \<lparr> data_labels = map fst es,
             dataset_data = map (\<lambda>v. if v = JNull then JNum 0 else v) (map snd es),
             pointBackgroundColor =
               map (\<lambda>v. if v = JNull then js ''transparent'' else COLOR_DATA_POINT) (map snd es),
             pointBorderColor =
               map (\<lambda>v. if v = JNull then js ''transparent'' else COLOR_DATA_POINT) (map snd es),
             pointRadius = map (\<lambda>v. if v = JNull then 0 else 4) (map snd es),
             pointHoverRadius = map (\<lambda>v. if v = JNull then 0 else 6) (map snd es),
             pointHitRadius = map (\<lambda>v. if v = JNull then 0 else 8) (map snd es),
             maintainAspectRatio = (case opt of None \<Rightarrow> True | Some b \<Rightarrow> b),
             tooltipTitle = (\<lambda>i. if i < length es then JStr (map fst es ! i) else JUndefined),
             tooltipLabel =
               tooltipLabelAt h (map fst es) (map snd es) (map (\<lambda>v. v = JNull) (map snd es))
                 (if truthy h raw then raw else JNull),
             pointLabelsColor =
               (\<lambda>i. if i < length es \<and> map (\<lambda>v. v = JNull) (map snd es) ! i
                    then COLOR_LABEL_NULL else COLOR_LABEL),
             pointLabelsCallback = wrapPointLabel \<rparr>"
proof -
  from Get_total [OF d] obtain raw where raw: "Get chartData (js ''raw'') = Inr raw"
    by blast
  have k: "Object_keys d = Inr (map fst es)" and v: "Object_values d = Inr (map snd es)"
    using es by (simp_all add: Object_keys_def Object_values_def)
  show ?thesis
    by (rule exI [of _ raw]) (simp add: render_def d k v raw Let_def comp_def)
qed

text \<open>
  C1: when the payload has a \<open>data\<close> field that is not \<open>null\<close>, \<open>render\<close> returns a
  configuration with one entry per axis in each per-point array. For an axis whose score
  is \<open>null\<close> the display value is 0, the point background and border colours are
  \<open>transparent\<close> and the point radius, hover radius and hit radius are 0. For an axis
  whose score is anything else (the number 0 included) the display value is the score, the
  two colours are the solid point colour and the radii are 4, 6 and 8.
\<close>

theorem render_point_styling:
  assumes "Get chartData (js ''data'') = Inr d" and "Object_values d = Inr scoreValues"
  shows "\<exists>cfg. render h opt chartData = Inr cfg \<and>
     length (dataset_data cfg) = length scoreValues \<and>
     length (pointBackgroundColor cfg) = length scoreValues \<and>
     length (pointBorderColor cfg) = length scoreValues \<and>
     length (pointRadius cfg) = length scoreValues \<and>
     length (pointHoverRadius cfg) = length scoreValues \<and>
     length (pointHitRadius cfg) = length scoreValues \<and>
     (\<forall>i<length scoreValues.
        (scoreValues ! i = JNull \<longrightarrow>
           dataset_data cfg ! i = JNum 0 \<and>
           pointBackgroundColor cfg ! i = js ''transparent'' \<and>
           pointBorderColor cfg ! i = js ''transparent'' \<and>
           pointRadius cfg ! i = 0 \<and> pointHoverRadius cfg ! i = 0 \<and> pointHitRadius cfg ! i = 0) \<and>
        (scoreValues ! i \<noteq> JNull \<longrightarrow>
           dataset_data cfg ! i = scoreValues ! i \<and>
           pointBackgroundColor cfg ! i = js ''rgba(59, 130, 246, 1)'' \<and>
           pointBorderColor cfg ! i = js ''rgba(59, 130, 246, 1)'' \<and>
           pointRadius cfg ! i = 4 \<and> pointHoverRadius cfg ! i = 6 \<and> pointHitRadius cfg ! i = 8) \<and>
        (scoreValues ! i = JNum 0 \<longrightarrow> pointRadius cfg ! i = 4))"
proof -
  from Object_keys_values [OF assms(2)] obtain es
    where es: "ownEntries d = Inr es" and vs: "scoreValues = map snd es"
    by blast
  from render_result [OF assms(1) es, of h opt] obtain cfg
    where r: "render h opt chartData = Inr cfg"
      and 1: "dataset_data cfg = map (\<lambda>v. if v = JNull then JNum 0 else v) scoreValues"
      and 2: "pointBackgroundColor cfg =
               map (\<lambda>v. if v = JNull then js ''transparent'' else COLOR_DATA_POINT) scoreValues"
      and 3: "pointBorderColor cfg =
               map (\<lambda>v. if v = JNull then js ''transparent'' else COLOR_DATA_POINT) scoreValues"
      and 4: "pointRadius cfg = map (\<lambda>v. if v = JNull then 0 else 4) scoreValues"
      and 5: "pointHoverRadius cfg = map (\<lambda>v. if v = JNull then 0 else 6) scoreValues"
      and 6: "pointHitRadius cfg = map (\<lambda>v. if v = JNull then 0 else 8) scoreValues"
    unfolding vs by force
  show ?thesis
    by (rule exI [of _ cfg]) (simp add: r 1 2 3 4 5 6 COLOR_DATA_POINT_def)
qed

theorem render_point_styling_witness:
  "Get (JObj [(js ''data'', JObj [(js ''Fuel'', JNum (0::int)), (js ''Roads'', JNull)])]) (js ''data'') =
     Inr (JObj [(js ''Fuel'', JNum (0::int)), (js ''Roads'', JNull)]) \<and>
   Object_values (JObj [(js ''Fuel'', JNum (0::int)), (js ''Roads'', JNull)]) = Inr [JNum 0, JNull] \<and>
   (\<exists>cfg. render intHost None
             (JObj [(js ''data'', JObj [(js ''Fuel'', JNum (0::int)), (js ''Roads'', JNull)])]) = Inr cfg \<and>
      dataset_data cfg ! 0 = JNum 0 \<and> pointRadius cfg ! 0 = 4 \<and>
      pointHoverRadius cfg ! 0 = 6 \<and> pointHitRadius cfg ! 0 = 8 \<and>
      pointBackgroundColor cfg ! 0 = js ''rgba(59, 130, 246, 1)'' \<and>
      dataset_data cfg ! 1 = JNum 0 \<and> pointRadius cfg ! 1 = 0 \<and>
      pointHoverRadius cfg ! 1 = 0 \<and> pointHitRadius cfg ! 1 = 0 \<and>
      pointBackgroundColor cfg ! 1 = js ''transparent'' \<and>
      pointBorderColor cfg ! 1 = js ''transparent'')"
proof -
  let ?d = "JObj [(js ''Fuel'', JNum (0::int)), (js ''Roads'', JNull)]"
  let ?cd = "JObj [(js ''data'', ?d)]"
  have a: "Get ?cd (js ''data'') = Inr ?d"
    by (simp add: js_def)
  have b: "Object_values ?d = Inr [JNum 0, JNull]"
    by (simp add: Object_values_def ownPropertyOrder_def arrayIndex_def js_def isDigit_def)
  from render_point_styling [OF a b, of intHost None] obtain cfg
    where r: "render intHost None ?cd = Inr cfg"
      and s: "\<forall>i<length [JNum (0::int), JNull].
        ([JNum (0::int), JNull] ! i = JNull \<longrightarrow>
           dataset_data cfg ! i = JNum 0 \<and>
           pointBackgroundColor cfg ! i = js ''transparent'' \<and>
           pointBorderColor cfg ! i = js ''transparent'' \<and>
           pointRadius cfg ! i = 0 \<and> pointHoverRadius cfg ! i = 0 \<and> pointHitRadius cfg ! i = 0) \<and>
        ([JNum (0::int), JNull] ! i \<noteq> JNull \<longrightarrow>
           dataset_data cfg ! i = [JNum (0::int), JNull] ! i \<and>
           pointBackgroundColor cfg ! i = js ''rgba(59, 130, 246, 1)'' \<and>
           pointBorderColor cfg ! i = js ''rgba(59, 130, 246, 1)'' \<and>
           pointRadius cfg ! i = 4 \<and> pointHoverRadius cfg ! i = 6 \<and> pointHitRadius cfg ! i = 8) \<and>
        ([JNum (0::int), JNull] ! i = JNum 0 \<longrightarrow> pointRadius cfg ! i = 4)"
    by blast
  from s [rule_format, of 0] s [rule_format, of 1] r a b show ?thesis
    by (intro conjI exI [of _ cfg]) simp_all
qed

text \<open>
  C2: when \<open>isNull\<close> is true the tooltip is exactly the single line
  "No data available", whatever the label, the score and the raw data are: the raw detail
  of the axis is never looked at. So in a rendered chart the tooltip of every axis whose
  score is \<open>null\<close> is that line.
\<close>

theorem buildTooltipLabel_isNull:
  "buildTooltipLabel h label scoreValue True rawData = Inr (Text (js ''No data available'')) \<and>
   (Get chartData (js ''data'') = Inr d \<longrightarrow> Object_values d = Inr vs \<longrightarrow>
      (\<exists>cfg. render h opt chartData = Inr cfg \<and>
         (\<forall>i<length vs. vs ! i = JNull \<longrightarrow>
            tooltipLabel cfg i = Inr (Text (js ''No data available'')))))"
proof (intro conjI impI)
  show "buildTooltipLabel h label scoreValue True rawData = Inr (Text (js ''No data available''))"
    by (simp add: buildTooltipLabel_def)
next
  assume d: "Get chartData (js ''data'') = Inr d" and v: "Object_values d = Inr vs"
  from Object_keys_values [OF v] obtain es
    where es: "ownEntries d = Inr es" and vs: "vs = map snd es"
    by blast
  from render_result [OF d es, of h opt] obtain cfg raw
    where r: "render h opt chartData = Inr cfg"
      and t: "tooltipLabel cfg =
                tooltipLabelAt h (map fst es) vs (map (\<lambda>v. v = JNull) vs)
                  (if truthy h raw then raw else JNull)"
    unfolding vs by force
  have "\<forall>i<length vs. vs ! i = JNull \<longrightarrow>
            tooltipLabel cfg i = Inr (Text (js ''No data available''))"
    by (simp add: t tooltipLabelAt_def vs buildTooltipLabel_def)
  with r show "\<exists>cfg. render h opt chartData = Inr cfg \<and>
         (\<forall>i<length vs. vs ! i = JNull \<longrightarrow>
            tooltipLabel cfg i = Inr (Text (js ''No data available'')))"
    by blast
qed

theorem buildTooltipLabel_isNull_witness:
  "Get (JObj [(js ''data'', JObj [(js ''Roads'', JNull)]),
              (js ''raw'', JObj [(js ''Roads'',
                 JObj [(js ''value'', JNum (3::int)), (js ''metric'', JStr (js ''km''))])])])
     (js ''data'') = Inr (JObj [(js ''Roads'', JNull)]) \<and>
   Object_values (JObj [(js ''Roads'', JNull :: int jsval)]) = Inr [JNull] \<and>
   (\<exists>cfg. render intHost None
      (JObj [(js ''data'', JObj [(js ''Roads'', JNull)]),
             (js ''raw'', JObj [(js ''Roads'',
                JObj [(js ''value'', JNum (3::int)), (js ''metric'', JStr (js ''km''))])])]) =
      Inr cfg \<and>
      tooltipLabel cfg 0 = Inr (Text (js ''No data available'')))"
proof -
  let ?d = "JObj [(js ''Roads'', JNull :: int jsval)]"
  let ?cd = "JObj [(js ''data'', ?d),
              (js ''raw'', JObj [(js ''Roads'',
                 JObj [(js ''value'', JNum (3::int)), (js ''metric'', JStr (js ''km''))])])]"
  have a: "Get ?cd (js ''data'') = Inr ?d"
    by (simp add: js_def)
  have b: "Object_values ?d = Inr [JNull]"
    by (simp add: Object_values_def ownPropertyOrder_single)
  from buildTooltipLabel_isNull [of intHost _ _ _ ?cd ?d "[JNull]" None] a b obtain cfg
    where r: "render intHost None ?cd = Inr cfg"
      and t: "\<forall>i<length [JNull :: int jsval]. [JNull :: int jsval] ! i = JNull \<longrightarrow>
            tooltipLabel cfg i = Inr (Text (js ''No data available''))"
    by blast
  from t [rule_format, of 0] have "tooltipLabel cfg 0 = Inr (Text (js ''No data available''))"
    by simp
  with r a b show ?thesis
    by blast
qed

text \<open>
  C8, as amended: when \<open>data\<close> is an object, the labels, the display values, the
  per-point styling, the tooltip title and body at each index and the label colours all
  follow one order, the order of \<open>Object.keys\<close>: the keys that are array indices
  first, ascending, then the other keys in insertion order. It has the same entries as
  \<open>data\<close>, and when no key is an array index it is the insertion order.
\<close>

theorem render_axis_order:
  assumes "Get chartData (js ''data'') = Inr (JObj kvs)"
  shows "\<exists>cfg raw.
     render h opt chartData = Inr cfg \<and> Get chartData (js ''raw'') = Inr raw \<and>
     data_labels cfg = map fst (ownPropertyOrder kvs) \<and>
     dataset_data cfg = map (\<lambda>kv. if snd kv = JNull then JNum 0 else snd kv) (ownPropertyOrder kvs) \<and>
     pointRadius cfg = map (\<lambda>kv. if snd kv = JNull then 0 else 4) (ownPropertyOrder kvs) \<and>
     (\<forall>i<length kvs.
        tooltipTitle cfg i = JStr (fst (ownPropertyOrder kvs ! i)) \<and>
        tooltipLabel cfg i =
          buildTooltipLabel h (fst (ownPropertyOrder kvs ! i)) (snd (ownPropertyOrder kvs ! i))
            (snd (ownPropertyOrder kvs ! i) = JNull) (if truthy h raw then raw else JNull) \<and>
        pointLabelsColor cfg i =
          (if snd (ownPropertyOrder kvs ! i) = JNull then COLOR_LABEL_NULL else COLOR_LABEL)) \<and>
     length (ownPropertyOrder kvs) = length kvs \<and>
     set (ownPropertyOrder kvs) = set kvs \<and>
     ownPropertyOrder kvs =
       filter (\<lambda>kv. arrayIndex (fst kv) \<noteq> None) (ownPropertyOrder kvs)
       @ filter (\<lambda>kv. arrayIndex (fst kv) = None) kvs \<and>
     sorted (List.map_filter (\<lambda>kv. arrayIndex (fst kv)) (ownPropertyOrder kvs)) \<and>
     (list_all (\<lambda>kv. arrayIndex (fst kv) = None) kvs \<longrightarrow> ownPropertyOrder kvs = kvs)"
proof -
  have es: "ownEntries (JObj kvs) = Inr (ownPropertyOrder kvs)"
    by simp
  from render_result [OF assms es, of h opt] obtain raw cfg
    where raw: "Get chartData (js ''raw'') = Inr raw"
      and r: "render h opt chartData = Inr cfg"
      and 1: "data_labels cfg = map fst (ownPropertyOrder kvs)"
      and 2: "dataset_data cfg =
                map (\<lambda>v. if v = JNull then JNum 0 else v) (map snd (ownPropertyOrder kvs))"
      and 3: "pointRadius cfg = map (\<lambda>v. if v = JNull then 0 else 4) (map snd (ownPropertyOrder kvs))"
      and 4: "tooltipTitle cfg =
                (\<lambda>i. if i < length (ownPropertyOrder kvs)
                     then JStr (map fst (ownPropertyOrder kvs) ! i) else JUndefined)"
      and 5: "tooltipLabel cfg =
                tooltipLabelAt h (map fst (ownPropertyOrder kvs)) (map snd (ownPropertyOrder kvs))
                  (map (\<lambda>v. v = JNull) (map snd (ownPropertyOrder kvs)))
                  (if truthy h raw then raw else JNull)"
      and 6: "pointLabelsColor cfg =
                (\<lambda>i. if i < length (ownPropertyOrder kvs)
                        \<and> map (\<lambda>v. v = JNull) (map snd (ownPropertyOrder kvs)) ! i
                     then COLOR_LABEL_NULL else COLOR_LABEL)"
    by force
  have cb: "\<forall>i<length kvs.
        tooltipTitle cfg i = JStr (fst (ownPropertyOrder kvs ! i)) \<and>
        tooltipLabel cfg i =
          buildTooltipLabel h (fst (ownPropertyOrder kvs ! i)) (snd (ownPropertyOrder kvs ! i))
            (snd (ownPropertyOrder kvs ! i) = JNull) (if truthy h raw then raw else JNull) \<and>
        pointLabelsColor cfg i =
          (if snd (ownPropertyOrder kvs ! i) = JNull then COLOR_LABEL_NULL else COLOR_LABEL)"
    by (simp add: 4 5 6 tooltipLabelAt_def length_ownPropertyOrder)
  have d2: "dataset_data cfg =
              map (\<lambda>kv. if snd kv = JNull then JNum 0 else snd kv) (ownPropertyOrder kvs)"
    by (simp add: 2 comp_def)
  have d3: "pointRadius cfg = map (\<lambda>kv. if snd kv = JNull then 0 else 4) (ownPropertyOrder kvs)"
    by (simp add: 3 comp_def)
  from r raw 1 d2 d3 cb length_ownPropertyOrder [of kvs] set_ownPropertyOrder [of kvs]
    index_first_ownPropertyOrder [of kvs] sorted_ownPropertyOrder [of kvs]
    ownPropertyOrder_plain [of kvs]
  show ?thesis
    by blast
qed

theorem render_axis_order_witness:
  "Get (JObj [(js ''data'', JObj [(js ''Fuel'', JNum (5::int)), (js ''Roads'', JNull)])]) (js ''data'') =
     Inr (JObj [(js ''Fuel'', JNum (5::int)), (js ''Roads'', JNull)]) \<and>
   list_all (\<lambda>kv. arrayIndex (fst kv) = None) [(js ''Fuel'', JNum (5::int)), (js ''Roads'', JNull)] \<and>
   (\<exists>cfg. render intHost None
             (JObj [(js ''data'', JObj [(js ''Fuel'', JNum (5::int)), (js ''Roads'', JNull)])]) = Inr cfg \<and>
      data_labels cfg = [js ''Fuel'', js ''Roads''] \<and>
      dataset_data cfg = [JNum 5, JNum 0] \<and>
      tooltipTitle cfg 1 = JStr (js ''Roads'') \<and>
      tooltipLabel cfg 1 = Inr (Text (js ''No data available'')))"
proof -
  let ?kvs = "[(js ''Fuel'', JNum (5::int)), (js ''Roads'', JNull)]"
  let ?cd = "JObj [(js ''data'', JObj ?kvs)]"
  have a: "Get ?cd (js ''data'') = Inr (JObj ?kvs)"
    by (simp add: js_def)
  have p: "list_all (\<lambda>kv. arrayIndex (fst kv) = None) ?kvs"
    by (simp add: arrayIndex_def js_def isDigit_def)
  from render_axis_order [OF a, of intHost None] p obtain cfg raw
    where r: "render intHost None ?cd = Inr cfg"
      and l: "data_labels cfg = map fst (ownPropertyOrder ?kvs)"
      and d: "dataset_data cfg =
                map (\<lambda>kv. if snd kv = JNull then JNum 0 else snd kv) (ownPropertyOrder ?kvs)"
      and t: "\<forall>i<length ?kvs.
        tooltipTitle cfg i = JStr (fst (ownPropertyOrder ?kvs ! i)) \<and>
        tooltipLabel cfg i =
          buildTooltipLabel intHost (fst (ownPropertyOrder ?kvs ! i)) (snd (ownPropertyOrder ?kvs ! i))
            (snd (ownPropertyOrder ?kvs ! i) = JNull) (if truthy intHost raw then raw else JNull) \<and>
        pointLabelsColor cfg i =
          (if snd (ownPropertyOrder ?kvs ! i) = JNull then COLOR_LABEL_NULL else COLOR_LABEL)"
      and o: "ownPropertyOrder ?kvs = ?kvs"
    by blast
  from t [rule_format, of 1] r l d a p show ?thesis
    unfolding o by (intro conjI exI [of _ cfg]) (simp_all add: buildTooltipLabel_def)
qed

text \<open>
  C8 as stated fails when a key is an array index: for \<open>{"Fuel": 5, "2024": null}\<close>
  the rendered labels are \<open>2024, Fuel\<close>, not the insertion order \<open>Fuel, 2024\<close>.
\<close>

theorem render_axis_order_counterexample:
  "map_sum id data_labels
     (render intHost None
        (JObj [(js ''data'', JObj [(js ''Fuel'', JNum (5::int)), (js ''2024'', JNull)])])) =
     Inr [js ''2024'', js ''Fuel''] \<and>
   map_sum id data_labels
     (render intHost None
        (JObj [(js ''data'', JObj [(js ''Fuel'', JNum (5::int)), (js ''2024'', JNull)])])) \<noteq>
     Inr (map fst [(js ''Fuel'', JNum (5::int)), (js ''2024'', JNull)])"
  by (simp add: render_def Let_def Object_keys_def Object_values_def ownPropertyOrder_def
      arrayIndex_def digitsValue_def isDigit_def js_def)

subsection \<open>extractDatetime\<close>

text \<open>
  C5, as amended: \<open>extractDatetime\<close> returns a string payload unchanged; for an object
  it returns the first string among the property values, in the order of
  \<open>Object.values\<close>, and \<open>null\<close> when no value is a string; so for an object with a
  single key whose value is a string it returns that string, whatever the key. For an
  array it returns the first element that is a string, else \<open>null\<close>. For \<open>null\<close>,
  \<open>undefined\<close>, a number or a boolean it returns \<open>null\<close>. In particular an object
  with two keys whose values are numbers gives \<open>null\<close>.
\<close>

theorem extractDatetime_shapes:
  "extractDatetime (JStr s) = Inr (JStr s) \<and>
   extractDatetime (JObj [(k, JStr s)]) = Inr (JStr s) \<and>
   extractDatetime (JObj kvs) =
     Inr (case find (\<lambda>v. typeof v = ''string'') (map snd (ownPropertyOrder kvs)) of
            None \<Rightarrow> JNull | Some v \<Rightarrow> v) \<and>
   extractDatetime (JArr xs) =
     Inr (case find (\<lambda>v. typeof v = ''string'') xs of None \<Rightarrow> JNull | Some v \<Rightarrow> v) \<and>
   extractDatetime JNull = Inr JNull \<and>
   extractDatetime JUndefined = Inr JNull \<and>
   extractDatetime (JNum x) = Inr JNull \<and>
   extractDatetime (JBool b) = Inr JNull \<and>
   extractDatetime (JObj [(js ''a'', JNum x), (js ''b'', JNum y)]) = Inr JNull"
proof (intro conjI)
  show "extractDatetime (JObj [(k, JStr s)]) = Inr (JStr s)"
    by (simp add: extractDatetime_def Object_values_def ownPropertyOrder_single)
  show "extractDatetime (JArr xs) =
     Inr (case find (\<lambda>v. typeof v = ''string'') xs of None \<Rightarrow> JNull | Some v \<Rightarrow> v)"
    by (simp add: extractDatetime_def Object_values_JArr)
  show "extractDatetime (JObj [(js ''a'', JNum x), (js ''b'', JNum y)]) = Inr JNull"
    by (simp add: extractDatetime_def Object_values_def ownPropertyOrder_def
        arrayIndex_def isDigit_def js_def)
qed (simp_all add: extractDatetime_def Object_values_def)

theorem extractDatetime_shapes_witness:
  "extractDatetime (JStr (js ''2024-01-01T00:00Z'') :: int jsval) = Inr (JStr (js ''2024-01-01T00:00Z'')) \<and>
   extractDatetime (JObj [(js ''updated_at'', JStr (js ''2024-01-01''))] :: int jsval) =
     Inr (JStr (js ''2024-01-01'')) \<and>
   extractDatetime (JObj [(js ''a'', JNum (1::int)), (js ''b'', JNum 2)]) = Inr JNull \<and>
   extractDatetime (JNull :: int jsval) = Inr JNull"
  using extractDatetime_shapes [of "js ''2024-01-01T00:00Z''" "js ''updated_at''" "[]" "[]" "1::int" True 2]
    extractDatetime_shapes [of "js ''2024-01-01''" "js ''updated_at''" "[]" "[]" "1::int" True 2]
  by blast

text \<open>
  C5 as stated fails on an object with several keys one of which holds a string: it is
  neither a bare string nor a single-key object, and the result is the string, not
  \<open>null\<close>.
\<close>

theorem extractDatetime_counterexample:
  "extractDatetime (JObj [(js ''a'', JNum (1::int)), (js ''b'', JStr (js ''x''))]) =
     Inr (JStr (js ''x''))"
  by (simp add: extractDatetime_def Object_values_def ownPropertyOrder_def
      arrayIndex_def isDigit_def js_def)

subsection \<open>formatNumber and formatRawEntry\<close>

lemma arrayIndex_value: "arrayIndex (js ''value'') = None"
  by (simp add: arrayIndex_def js_def isDigit_def)

lemma arrayIndex_metric: "arrayIndex (js ''metric'') = None"
  by (simp add: arrayIndex_def js_def isDigit_def)

lemma isNullish_iff: "isNullish v = (v = JNull \<or> v = JUndefined)"
  by (cases v) auto

lemma Get_value_falsy:
  "\<not> truthy h entry \<Longrightarrow> \<not> isNullish entry \<Longrightarrow> Get entry (js ''value'') = Inr JUndefined"
  by (cases entry) (auto simp: arrayIndex_value)

lemma Get_value_truthy:
  "Get entry (js ''value'') = Inr v \<Longrightarrow> \<not> isNullish v \<Longrightarrow> truthy h entry"
  by (cases entry) (auto simp: arrayIndex_value)

lemma formatRawEntry_None_iff:
  "(formatRawEntry h entry = Inr None) =
   (isNullish entry \<or> Get entry (js ''value'') = Inr JNull
      \<or> Get entry (js ''value'') = Inr JUndefined)"
proof (cases "truthy h entry")
  case False
  then show ?thesis
    using Get_value_falsy [of h entry] by (auto simp: formatRawEntry_def)
next
  case True
  then have n: "\<not> isNullish entry"
    by (cases entry) auto
  then obtain v where v: "Get entry (js ''value'') = Inr v"
    by (cases entry) auto
  show ?thesis
    using True n v
    by (auto simp: formatRawEntry_def isNullish_iff split: sum.splits)
qed

lemma formatRawEntry_value:
  assumes "Get entry (js ''value'') = Inr v" and "\<not> isNullish v"
    and "Get entry (js ''metric'') = Inr m"
  shows "formatRawEntry h entry =
     (case formatNumber h v of
        Inl e \<Rightarrow> Inl e
      | Inr formatted \<Rightarrow>
          if truthy h m
          then (case ToString h m of
                  Inl e \<Rightarrow> Inl e
                | Inr ms \<Rightarrow> Inr (Some (formatted @ [SP] @ ms)))
          else Inr (Some formatted))"
  using assms Get_value_truthy [OF assms(1,2), of h]
  by (simp add: formatRawEntry_def isNullish_iff split: sum.splits)

lemma intGrouped_12: "intGrouped 12 = js ''12''"
  by (simp add: intGrouped_def js_def)

lemma intGrouped_26400: "intGrouped 26400 = js ''26,400''"
  by (simp add: intGrouped_def js_def)

text \<open>
  C7: \<open>formatRawEntry\<close> returns \<open>null\<close> exactly when the entry is \<open>null\<close> or
  \<open>undefined\<close> or reading its \<open>value\<close> gives \<open>null\<close> or \<open>undefined\<close> (which is
  what a falsy entry such as \<open>0\<close> or the empty string gives). Otherwise, with
  \<open>formatted\<close> the result of \<open>formatNumber\<close> on the value, it returns \<open>formatted\<close> alone
  when the metric is falsy (missing, \<open>null\<close> or the empty string) and \<open>formatted\<close>, a
  space and the metric when the metric is truthy.
\<close>

theorem formatRawEntry_result:
  "(formatRawEntry h entry = Inr None) =
     (isNullish entry \<or> Get entry (js ''value'') = Inr JNull
        \<or> Get entry (js ''value'') = Inr JUndefined) \<and>
   (Get entry (js ''value'') = Inr v \<longrightarrow> \<not> isNullish v \<longrightarrow>
    Get entry (js ''metric'') = Inr m \<longrightarrow> formatNumber h v = Inr formatted \<longrightarrow>
      (\<not> truthy h m \<longrightarrow> formatRawEntry h entry = Inr (Some formatted)) \<and>
      (truthy h m \<longrightarrow>
         formatRawEntry h entry =
           map_sum id (\<lambda>ms. Some (formatted @ [SP] @ ms)) (ToString h m)) \<and>
      (m = JStr [] \<longrightarrow> formatRawEntry h entry = Inr (Some formatted)) \<and>
      (m = JUndefined \<longrightarrow> formatRawEntry h entry = Inr (Some formatted)) \<and>
      (m = JNull \<longrightarrow> formatRawEntry h entry = Inr (Some formatted)) \<and>
      (\<forall>ms. ms \<noteq> [] \<longrightarrow> m = JStr ms \<longrightarrow>
         formatRawEntry h entry = Inr (Some (formatted @ [SP] @ ms))))"
proof (intro conjI impI allI)
  show "(formatRawEntry h entry = Inr None) =
     (isNullish entry \<or> Get entry (js ''value'') = Inr JNull
        \<or> Get entry (js ''value'') = Inr JUndefined)"
    by (rule formatRawEntry_None_iff)
next
  assume a: "Get entry (js ''value'') = Inr v" "\<not> isNullish v"
    "Get entry (js ''metric'') = Inr m" "formatNumber h v = Inr formatted"
  note r = formatRawEntry_value [OF a(1,2,3), of h, unfolded a(4), simplified]
  show "formatRawEntry h entry = Inr (Some formatted)" if "\<not> truthy h m"
    using that r by simp
  show "formatRawEntry h entry =
           map_sum id (\<lambda>ms. Some (formatted @ [SP] @ ms)) (ToString h m)" if "truthy h m"
    using that r by (cases "ToString h m") simp_all
  show "formatRawEntry h entry = Inr (Some formatted)" if "m = JStr []"
    using that r by simp
  show "formatRawEntry h entry = Inr (Some formatted)" if "m = JUndefined"
    using that r by simp
  show "formatRawEntry h entry = Inr (Some formatted)" if "m = JNull"
    using that r by simp
  show "formatRawEntry h entry = Inr (Some (formatted @ [SP] @ ms))"
    if "ms \<noteq> []" "m = JStr ms" for ms
    using that r by simp
qed

theorem formatRawEntry_result_witness:
  "Get (JObj [(js ''value'', JNum (26400::int)), (js ''metric'', JStr (js ''acres burned''))])
     (js ''value'') = Inr (JNum 26400) \<and>
   \<not> isNullish (JNum (26400::int)) \<and>
   Get (JObj [(js ''value'', JNum (26400::int)), (js ''metric'', JStr (js ''acres burned''))])
     (js ''metric'') = Inr (JStr (js ''acres burned'')) \<and>
   formatNumber intHost (JNum 26400) = Inr (js ''26,400'') \<and>
   js ''acres burned'' \<noteq> [] \<and>
   formatRawEntry intHost
     (JObj [(js ''value'', JNum 26400), (js ''metric'', JStr (js ''acres burned''))]) =
     Inr (Some (js ''26,400'' @ [SP] @ js ''acres burned'')) \<and>
   Get (JObj [(js ''value'', JNum (12::int)), (js ''metric'', JStr [])]) (js ''value'') =
     Inr (JNum 12) \<and>
   Get (JObj [(js ''value'', JNum (12::int)), (js ''metric'', JStr [])]) (js ''metric'') =
     Inr (JStr []) \<and>
   formatNumber intHost (JNum 12) = Inr (js ''12'') \<and>
   formatRawEntry intHost (JObj [(js ''value'', JNum 12), (js ''metric'', JStr [])]) =
     Inr (Some (js ''12''))"
proof -
  let ?e = "JObj [(js ''value'', JNum (26400::int)), (js ''metric'', JStr (js ''acres burned''))]"
  let ?e' = "JObj [(js ''value'', JNum (12::int)), (js ''metric'', JStr [])]"
  have v: "Get ?e (js ''value'') = Inr (JNum 26400)"
    by simp
  have n: "\<not> isNullish (JNum (26400::int))"
    by simp
  have m: "Get ?e (js ''metric'') = Inr (JStr (js ''acres burned''))"
    by (simp add: js_def)
  have f: "formatNumber intHost (JNum 26400) = Inr (js ''26,400'')"
    by (simp add: formatNumber_def intHost_def intGrouped_26400)
  have ne: "js ''acres burned'' \<noteq> []"
    by (simp add: js_def)
  have v': "Get ?e' (js ''value'') = Inr (JNum 12)"
    by simp
  have n': "\<not> isNullish (JNum (12::int))"
    by simp
  have m': "Get ?e' (js ''metric'') = Inr (JStr [])"
    by (simp add: js_def)
  have f': "formatNumber intHost (JNum 12) = Inr (js ''12'')"
    by (simp add: formatNumber_def intHost_def intGrouped_12)
  from formatRawEntry_result [of intHost ?e "JNum 26400" "JStr (js ''acres burned'')" "js ''26,400''"]
    v n m f ne
  have 1: "formatRawEntry intHost ?e = Inr (Some (js ''26,400'' @ [SP] @ js ''acres burned''))"
    by blast
  from formatRawEntry_result [of intHost ?e' "JNum 12" "JStr []" "js ''12''"] v' n' m' f'
  have 2: "formatRawEntry intHost ?e' = Inr (Some (js ''12''))"
    by blast
  from v n m f ne 1 v' m' f' 2 show ?thesis
    by blast
qed

subsection \<open>buildTooltipLabel on an axis that is not null\<close>

lemma length_collect: "collect rs = Inr xs \<Longrightarrow> length xs = length rs"
  by (induction rs arbitrary: xs) (auto split: sum.splits)

lemma nth_collect: "collect rs = Inr xs \<Longrightarrow> i < length rs \<Longrightarrow> rs ! i = Inr (xs ! i)"
proof (induction rs arbitrary: xs i)
  case Nil
  then show ?case by simp
next
  case (Cons r rs)
  then show ?case
    by (cases i) (auto split: sum.splits)
qed

lemma filterBoolean_concat:
  "filterBoolean ps =
   concat (map (\<lambda>p. case p of None \<Rightarrow> [] | Some s \<Rightarrow> if s = [] then [] else [s]) ps)"
  by (induction ps) (auto simp: filterBoolean_def split: option.splits)

lemma buildTooltipLabel_shape:
  assumes "buildTooltipLabel h label (JNum x) False rawData = Inr t"
  shows "t = Text (scoreLineOf (toFixed1 h x)) \<or>
         (\<exists>rawText. t = Lines [[BULLET, SP] @ rawText, scoreLineOf (toFixed1 h x)])"
  using assms
  by (auto simp: buildTooltipLabel_def Let_def
      split: if_splits sum.splits bool.splits jsval.splits option.splits)

lemma buildTooltipLabel_array:
  assumes "truthy h rawData" and "HasProperty label rawData = Inr True"
    and "Get rawData label = Inr (JArr es)"
    and "collect (map (formatRawEntry h) es) = Inr ps"
  shows "buildTooltipLabel h label (JNum x) False rawData =
     Inr (if filterBoolean ps = [] then Text (scoreLineOf (toFixed1 h x))
          else Lines [[BULLET, SP] @ js_join (js '' | '') (filterBoolean ps),
                      scoreLineOf (toFixed1 h x)])"
  using assms by (simp add: buildTooltipLabel_def Let_def)

subsection \<open>Exceptions\<close>

lemma collect_total: "\<forall>r\<in>set rs. \<exists>x. r = Inr x \<Longrightarrow> \<exists>xs. collect rs = Inr xs"
  by (induction rs) auto

lemma map2_same: "map2 f xs (map g xs) = map (\<lambda>x. f x (g x)) xs"
  by (induction xs) auto

lemma ToString_total: "printable v \<Longrightarrow> \<exists>s. ToString h v = Inr s"
proof (induction v)
  case (JArr xs)
  have "\<forall>r\<in>set (map (\<lambda>x. if isNullish x then Inr [] else ToString h x) xs). \<exists>s. r = Inr s"
    using JArr by (auto simp: list_all_iff)
  from collect_total [OF this] obtain ss
    where "collect (map (\<lambda>x. if isNullish x then Inr [] else ToString h x) xs) = Inr ss"
    by blast
  then show ?case
    by (simp add: map2_same)
qed simp_all

lemma formatNumber_total: "printable v \<Longrightarrow> \<exists>s. formatNumber h v = Inr s"
  using ToString_total [of v h] by (cases v) (auto simp: formatNumber_def)

lemma formatRawEntry_total: "entryPrintable e \<Longrightarrow> \<exists>r. formatRawEntry h e = Inr r"
proof (cases "truthy h e")
  case False
  then show ?thesis by (simp add: formatRawEntry_def)
next
  case True
  assume p: "entryPrintable e"
  from True obtain v m where v: "Get e (js ''value'') = Inr v" and m: "Get e (js ''metric'') = Inr m"
    by (cases e) auto
  from p v m have pv: "printable v" and pm: "printable m"
    by (simp_all add: entryPrintable_def)
  from formatNumber_total [OF pv, of h] obtain f where f: "formatNumber h v = Inr f"
    by blast
  from ToString_total [OF pm, of h] obtain ms where ms: "ToString h m = Inr ms"
    by blast
  show ?thesis
    using True v m f ms by (simp add: formatRawEntry_def)
qed

lemma rawPrintable_Get:
  "rawPrintable raw \<Longrightarrow> Get raw label = Inr d \<Longrightarrow> isNullish d \<or> rawDetailPrintable d"
proof (cases raw)
  case (JObj kvs)
  assume "rawPrintable raw" "Get raw label = Inr d"
  with JObj have a: "\<forall>kv\<in>set kvs. rawDetailPrintable (snd kv)"
    and g: "d = (case map_of kvs label of None \<Rightarrow> JUndefined | Some v \<Rightarrow> v)"
    by (auto simp: rawPrintable_def list_all_iff)
  show ?thesis
  proof (cases "map_of kvs label")
    case None
    with g show ?thesis by simp
  next
    case (Some v)
    then have "(label, v) \<in> set kvs" by (rule map_of_SomeD)
    with a have "rawDetailPrintable (snd (label, v))" by blast
    with g Some show ?thesis by simp
  qed
next
  case (JArr xs)
  assume "rawPrintable raw" "Get raw label = Inr d"
  with JArr show ?thesis
    by (auto simp: rawPrintable_def list_all_iff split: option.splits if_splits)
next
  case (JStr s)
  assume "Get raw label = Inr d"
  with JStr show ?thesis
    by (auto simp: rawDetailPrintable_def entryPrintable_def arrayIndex_value arrayIndex_metric
        split: option.splits if_splits)
qed auto

lemma buildTooltipLabel_total:
  assumes "isNull \<or> isNumber scoreValue"
    and "\<not> truthy h rawData \<or> isObject rawData"
    and "rawPrintable rawData"
  shows "\<exists>t. buildTooltipLabel h label scoreValue isNull rawData = Inr t"
proof (cases isNull)
  case True
  then show ?thesis by (simp add: buildTooltipLabel_def)
next
  case False
  with assms(1) obtain x where x: "scoreValue = JNum x"
    by (cases scoreValue) (auto simp: isNumber_def)
  show ?thesis
  proof (cases "truthy h rawData")
    case nt: False
    with False x show ?thesis by (simp add: buildTooltipLabel_def)
  next
    case True
    with assms(2) have "isObject rawData" by simp
    then obtain b d where b: "HasProperty label rawData = Inr b" and d: "Get rawData label = Inr d"
      by (cases rawData) (auto simp: isObject_def)
    show ?thesis
    proof (cases "b \<and> \<not> isNullish d")
      case skip: False
      with False x True b d show ?thesis
        by (cases b) (auto simp: buildTooltipLabel_def isNullish_iff)
    next
      case go: True
      with rawPrintable_Get [OF assms(3) d] have pd: "rawDetailPrintable d"
        by simp
      show ?thesis
      proof (cases d)
        case (JArr es)
        with pd have "\<forall>r\<in>set (map (formatRawEntry h) es). \<exists>p. r = Inr p"
          using formatRawEntry_total [of _ h] by (auto simp: rawDetailPrintable_def list_all_iff)
        from collect_total [OF this] obtain ps
          where "collect (map (formatRawEntry h) es) = Inr ps" by blast
        with False x True b d go JArr show ?thesis
          by (simp add: buildTooltipLabel_def Let_def)
      next
        case JUndefined
        with go show ?thesis by simp
      next
        case JNull
        with go show ?thesis by simp
      next
        case (JBool c)
        with pd formatRawEntry_total [of d h] obtain r where "formatRawEntry h d = Inr r"
          by (auto simp: rawDetailPrintable_def)
        with False x True b d go JBool show ?thesis
          by (cases r) (auto simp: buildTooltipLabel_def Let_def)
      next
        case (JNum c)
        with pd formatRawEntry_total [of d h] obtain r where "formatRawEntry h d = Inr r"
          by (auto simp: rawDetailPrintable_def)
        with False x True b d go JNum show ?thesis
          by (cases r) (auto simp: buildTooltipLabel_def Let_def)
      next
        case (JStr c)
        with pd formatRawEntry_total [of d h] obtain r where "formatRawEntry h d = Inr r"
          by (auto simp: rawDetailPrintable_def)
        with False x True b d go JStr show ?thesis
          by (cases r) (auto simp: buildTooltipLabel_def Let_def)
      next
        case (JObj c)
        with pd formatRawEntry_total [of d h] obtain r where "formatRawEntry h d = Inr r"
          by (auto simp: rawDetailPrintable_def)
        with False x True b d go JObj show ?thesis
          by (cases r) (auto simp: buildTooltipLabel_def Let_def)
      qed
    qed
  qed
qed

text \<open>
  C9, as amended: when the \<open>data\<close> field is present and not \<open>null\<close>, every score is
  a number or \<open>null\<close>, \<open>raw\<close> is missing, falsy, an object or an array, and no value or
  metric of a raw entry is an object with an own \<open>toString\<close> property (or an array that
  holds one), \<open>render\<close> returns and the tooltip of every axis is built without an
  exception; without raw data the tooltip of a scored axis is the score line.
  \<open>formatNumber\<close> returns for every value whose conversion to a string does not throw,
  with "N/A" for \<open>null\<close> and \<open>undefined\<close>, and \<open>formatRawEntry\<close> returns for every entry
  whose value and metric are such values, whatever their types. (\<open>wrapPointLabel\<close> has
  no failing case at all: it is a total function of the label.)
\<close>

theorem render_no_exception:
  assumes "Get chartData (js ''data'') = Inr d" and "Object_values d = Inr vs"
    and "list_all (\<lambda>v. v = JNull \<or> isNumber v) vs"
    and "Get chartData (js ''raw'') = Inr raw"
    and "\<not> truthy h raw \<or> isObject raw" and "rawPrintable raw"
  shows "\<exists>cfg. render h opt chartData = Inr cfg \<and>
     (\<forall>i<length vs. \<exists>t. tooltipLabel cfg i = Inr t) \<and>
     (\<forall>i<length vs. \<forall>x. vs ! i = JNum x \<longrightarrow> \<not> truthy h raw \<longrightarrow>
        tooltipLabel cfg i = Inr (Text (scoreLineOf (toFixed1 h x)))) \<and>
     (\<forall>v. printable v \<longrightarrow> (\<exists>s. formatNumber h v = Inr s)) \<and>
     formatNumber h JNull = Inr (js ''N/A'') \<and>
     formatNumber h JUndefined = Inr (js ''N/A'') \<and>
     (\<forall>e. entryPrintable e \<longrightarrow> (\<exists>r. formatRawEntry h e = Inr r))"
proof -
  from Object_keys_values [OF assms(2)] obtain es
    where es: "ownEntries d = Inr es" and vs: "vs = map snd es"
    by blast
  let ?rawData = "if truthy h raw then raw else JNull"
  from render_result [OF assms(1) es, of h opt] assms(4) obtain cfg
    where r: "render h opt chartData = Inr cfg"
      and t: "tooltipLabel cfg =
                tooltipLabelAt h (map fst es) vs (map (\<lambda>v. v = JNull) vs) ?rawData"
    unfolding vs by force
  have ro: "\<not> truthy h ?rawData \<or> isObject ?rawData"
    using assms(5) by auto
  have rp: "rawPrintable ?rawData"
    using assms(6) by (simp add: rawPrintable_def)
  have 1: "\<forall>i<length vs. \<exists>t. tooltipLabel cfg i = Inr t"
  proof (intro allI impI)
    fix i assume i: "i < length vs"
    with assms(3) have "vs ! i = JNull \<or> isNumber (vs ! i)"
      by (simp add: list_all_length)
    from buildTooltipLabel_total [OF this ro rp, of "map fst es ! i"] i
    show "\<exists>t. tooltipLabel cfg i = Inr t"
      by (simp add: t tooltipLabelAt_def vs)
  qed
  have 2: "\<forall>i<length vs. \<forall>x. vs ! i = JNum x \<longrightarrow> \<not> truthy h raw \<longrightarrow>
        tooltipLabel cfg i = Inr (Text (scoreLineOf (toFixed1 h x)))"
    by (simp add: t tooltipLabelAt_def vs buildTooltipLabel_def)
  have 3: "\<forall>v. printable v \<longrightarrow> (\<exists>s. formatNumber h v = Inr s)"
    using formatNumber_total by blast
  have 4: "formatNumber h JNull = Inr (js ''N/A'')" "formatNumber h JUndefined = Inr (js ''N/A'')"
    by (simp_all add: formatNumber_def)
  have 5: "\<forall>e. entryPrintable e \<longrightarrow> (\<exists>r. formatRawEntry h e = Inr r)"
    using formatRawEntry_total by blast
  from r 1 2 3 4 5 show ?thesis
    by blast
qed

theorem render_no_exception_witness:
  "Get (JObj [(js ''data'', JObj [(js ''Fuel'', JNum (62::int)), (js ''Roads'', JNull)]),
              (js ''raw'', JObj [(js ''Fuel'', JObj [(js ''value'', JStr (js ''unknown''))])])])
     (js ''data'') = Inr (JObj [(js ''Fuel'', JNum 62), (js ''Roads'', JNull)]) \<and>
   Object_values (JObj [(js ''Fuel'', JNum (62::int)), (js ''Roads'', JNull)]) =
     Inr [JNum 62, JNull] \<and>
   list_all (\<lambda>v. v = JNull \<or> isNumber v) [JNum (62::int), JNull] \<and>
   Get (JObj [(js ''data'', JObj [(js ''Fuel'', JNum (62::int)), (js ''Roads'', JNull)]),
              (js ''raw'', JObj [(js ''Fuel'', JObj [(js ''value'', JStr (js ''unknown''))])])])
     (js ''raw'') = Inr (JObj [(js ''Fuel'', JObj [(js ''value'', JStr (js ''unknown''))])]) \<and>
   isObject (JObj [(js ''Fuel'', JObj [(js ''value'', JStr (js ''unknown'') :: int jsval)])]) \<and>
   rawPrintable (JObj [(js ''Fuel'', JObj [(js ''value'', JStr (js ''unknown'') :: int jsval)])]) \<and>
   (\<exists>cfg. render intHost None
      (JObj [(js ''data'', JObj [(js ''Fuel'', JNum (62::int)), (js ''Roads'', JNull)]),
             (js ''raw'', JObj [(js ''Fuel'', JObj [(js ''value'', JStr (js ''unknown''))])])]) =
      Inr cfg \<and>
      (\<exists>t. tooltipLabel cfg 0 = Inr t) \<and> (\<exists>t. tooltipLabel cfg 1 = Inr t))"
proof -
  let ?d = "JObj [(js ''Fuel'', JNum (62::int)), (js ''Roads'', JNull)]"
  let ?raw = "JObj [(js ''Fuel'', JObj [(js ''value'', JStr (js ''unknown'') :: int jsval)])]"
  let ?cd = "JObj [(js ''data'', ?d), (js ''raw'', ?raw)]"
  have a: "Get ?cd (js ''data'') = Inr ?d"
    by (simp add: js_def)
  have b: "Object_values ?d = Inr [JNum 62, JNull]"
    by (simp add: Object_values_def ownPropertyOrder_def arrayIndex_def js_def isDigit_def)
  have c: "list_all (\<lambda>v. v = JNull \<or> isNumber v) [JNum (62::int), JNull]"
    by (simp add: isNumber_def)
  have d: "Get ?cd (js ''raw'') = Inr ?raw"
    by (simp add: js_def)
  have e: "isObject ?raw"
    by (simp add: isObject_def)
  then have e': "\<not> truthy intHost ?raw \<or> isObject ?raw"
    by simp
  have f: "rawPrintable ?raw"
    by (simp add: rawPrintable_def rawDetailPrintable_def entryPrintable_def)
  from render_no_exception [OF a b c d e' f, of None] obtain cfg
    where r: "render intHost None ?cd = Inr cfg"
      and t: "\<forall>i<length [JNum (62::int), JNull]. \<exists>t. tooltipLabel cfg i = Inr t"
    by blast
  from t [rule_format, of 0] t [rule_format, of 1]
  have "(\<exists>t. tooltipLabel cfg 0 = Inr t) \<and> (\<exists>t. tooltipLabel cfg 1 = Inr t)"
    by simp
  with r a b c d e f show ?thesis
    by blast
qed

text \<open>
  C9 as stated fails: with the \<open>data\<close> field present, a score that is a string, a
  \<open>raw\<close> field that is a non-empty string and a raw value that is an object with an own
  \<open>toString\<close> property each make the tooltip callback throw a \<open>TypeError\<close>, and a
  \<open>data\<close> field that is \<open>null\<close> makes \<open>render\<close> itself throw.
\<close>

theorem render_no_exception_counterexample:
  "map_sum id (\<lambda>cfg. tooltipLabel cfg 0)
     (render intHost None (JObj [(js ''data'', JObj [(js ''Fuel'', JStr (js ''high''))])])) =
     Inr (Inl TypeError) \<and>
   map_sum id (\<lambda>cfg. tooltipLabel cfg 0)
     (render intHost None
        (JObj [(js ''data'', JObj [(js ''Fuel'', JNum 5)]), (js ''raw'', JStr (js ''n/a''))])) =
     Inr (Inl TypeError) \<and>
   map_sum id (\<lambda>cfg. tooltipLabel cfg 0)
     (render intHost None
        (JObj [(js ''data'', JObj [(js ''Fuel'', JNum 5)]),
               (js ''raw'', JObj [(js ''Fuel'',
                  JObj [(js ''value'', JObj [(js ''toString'', JNum 1)])])])])) =
     Inr (Inl TypeError) \<and>
   map_sum id (\<lambda>cfg. tooltipLabel cfg 0)
     (render intHost None (JObj [(js ''data'', JNull)])) = Inl TypeError"
  by (simp add: render_def Let_def Object_keys_def Object_values_def ownPropertyOrder_def
      arrayIndex_def isDigit_def js_def tooltipLabelAt_def buildTooltipLabel_def
      formatRawEntry_def formatNumber_def intHost_def)

subsection \<open>The digits, the grouping and the rounding of the modelled host\<close>

declare decimal.simps [simp del]

lemma unat_digit: "k < 10 \<Longrightarrow> unat (word_of_nat (48 + k) :: 16 word) = 48 + k"
  by (simp add: unat_of_nat del: of_nat_add)

lemma isDigit_digit: "k < 10 \<Longrightarrow> isDigit (word_of_nat (48 + k))"
  using unat_digit [of k] by (simp add: isDigit_def word_le_nat_alt del: of_nat_add)

lemma digit_eq_zero: "k < 10 \<Longrightarrow> ((word_of_nat (48 + k) :: 16 word) = 0x30) = (k = 0)"
proof -
  assume k: "k < 10"
  have "((word_of_nat (48 + k) :: 16 word) = 0x30) =
        (unat (word_of_nat (48 + k) :: 16 word) = unat (0x30 :: 16 word))"
    by (simp only: word_unat_eq_iff)
  also have "\<dots> = (k = 0)"
    using unat_digit [OF k] by (simp del: of_nat_add)
  finally show ?thesis .
qed


lemma digitsValue_snoc: "digitsValue (xs @ [c]) = 10 * digitsValue xs + (unat c - 48)"
  by (simp add: digitsValue_def)

lemma decimal_small: "n < 10 \<Longrightarrow> decimal n = [word_of_nat (48 + n)]"
  by (subst decimal.simps) (simp del: of_nat_add)

lemma decimal_large: "\<not> n < 10 \<Longrightarrow> decimal n = decimal (n div 10) @ [word_of_nat (48 + n mod 10)]"
  by (subst decimal.simps) (simp del: of_nat_add)

lemma decimal_not_Nil: "decimal n \<noteq> []"
  by (cases "n < 10") (simp_all add: decimal_small decimal_large del: of_nat_add)

lemma decimal_digits: "list_all isDigit (decimal n)"
proof (induction n rule: decimal.induct)
  case (1 n)
  show ?case
  proof (cases "n < 10")
    case True
    then show ?thesis
      by (simp add: decimal_small isDigit_digit del: of_nat_add)
  next
    case False
    with 1 have "list_all isDigit (decimal (n div 10))" by blast
    moreover have "isDigit (word_of_nat (48 + n mod 10))"
      by (rule isDigit_digit) simp
    ultimately show ?thesis
      using False by (simp add: decimal_large del: of_nat_add)
  qed
qed

lemma digitsValue_decimal: "digitsValue (decimal n) = n"
proof (induction n rule: decimal.induct)
  case (1 n)
  show ?case
  proof (cases "n < 10")
    case True
    then show ?thesis
      by (simp add: decimal_small digitsValue_def unat_digit del: of_nat_add)
  next
    case False
    with 1 have "digitsValue (decimal (n div 10)) = n div 10" by blast
    moreover have "unat (word_of_nat (48 + n mod 10) :: 16 word) = 48 + n mod 10"
      by (rule unat_digit) simp
    ultimately show ?thesis
      using False by (simp add: decimal_large digitsValue_snoc del: of_nat_add)
  qed
qed

lemma hd_decimal: "n \<noteq> 0 \<Longrightarrow> hd (decimal n) \<noteq> 0x30"
proof (induction n rule: decimal.induct)
  case (1 n)
  show ?case
  proof (cases "n < 10")
    case True
    with "1.prems" show ?thesis
      by (simp add: decimal_small digit_eq_zero del: of_nat_add)
  next
    case False
    then have "n div 10 \<noteq> 0" by simp
    with 1 False have "hd (decimal (n div 10)) \<noteq> 0x30" by blast
    then show ?thesis
      using False decimal_not_Nil [of "n div 10"]
      by (simp add: decimal_large del: of_nat_add)
  qed
qed

lemma decimal_canonical: "length (decimal n) = 1 \<or> hd (decimal n) \<noteq> 0x30"
proof (cases "n = 0")
  case True
  then show ?thesis by (simp add: decimal_small)
next
  case False
  then show ?thesis by (simp add: hd_decimal)
qed

lemma digitsValue_tenths:
  "digitsValue (decimal (t div 10) @ [word_of_nat (48 + t mod 10)]) = t"
proof -
  have "unat (word_of_nat (48 + t mod 10) :: 16 word) = 48 + t mod 10"
    by (rule unat_digit) simp
  then show ?thesis
    by (simp add: digitsValue_snoc digitsValue_decimal del: of_nat_add)
qed


lemma length_groupRev_ge: "length r \<le> length (groupRev r)"
  by (induction r rule: groupRev.induct) auto




lemma scaled_bounds:
  "int (10 ^ e) * (2 * int (scaled 1 (Dec m e)) - 1) \<le> 20 * \<bar>m\<bar> \<and>
   20 * \<bar>m\<bar> < int (10 ^ e) * (2 * int (scaled 1 (Dec m e)) + 1)"
proof -
  define a where "a = nat \<bar>m\<bar> * 10 * 2"
  define b :: nat where "b = 10 ^ e"
  define t where "t = (a + b) div (2 * b)"
  have b: "0 < 2 * b" by (simp add: b_def)
  have 1: "t * (2 * b) \<le> a + b"
    unfolding t_def by (rule div_times_less_eq_dividend)
  have 2: "a + b < 2 * b + t * (2 * b)"
    unfolding t_def using b by (rule dividend_less_div_times)
  have t: "scaled 1 (Dec m e) = t"
    by (simp add: t_def a_def b_def)
  have a: "int a = 20 * \<bar>m\<bar>"
    by (simp add: a_def)
  from 1 have "int (t * (2 * b)) \<le> int (a + b)" by (simp only: of_nat_le_iff)
  then have 3: "int b * (2 * int t - 1) \<le> int a"
    by (simp add: algebra_simps)
  from 2 have "int (a + b) < int (2 * b + t * (2 * b))" by (simp only: of_nat_less_iff)
  then have 4: "int a < int b * (2 * int t + 1)"
    by (simp add: algebra_simps)
  from 3 4 show ?thesis
    unfolding t a b_def by simp
qed







lemma nearestTenths_scaled: "nearestTenths (scaled 1 x) x"
proof (cases x)
  case (Dec m e)
  then show ?thesis
    using scaled_bounds [of e m] by (simp add: nearestTenths_def del: scaled.simps)
qed


lemmas spec_eval =
  formatNumber_def specHost_def localeString_def fixed1_def fractionDigits_def grouped_def
  Let_def decimal.simps DOT_def MINUS_def js_def

subsection \<open>formatNumber\<close>



subsection \<open>The lines of a tooltip\<close>

lemma js_join_concat:
  "parts \<noteq> [] \<Longrightarrow> js_join sep parts = hd parts @ concat (map (\<lambda>q. sep @ q) (tl parts))"
proof (induction parts)
  case Nil
  then show ?case by simp
next
  case (Cons p ps)
  then show ?case by (cases ps) auto
qed

lemma fixed1_shape:
  "\<exists>ds d. fixed1 (Dec m e) = (if m < 0 then [0x2D] else []) @ ds @ [0x2E, d] \<and>
     ds \<noteq> [] \<and> list_all isDigit ds \<and> isDigit d \<and> (length ds = 1 \<or> hd ds \<noteq> 0x30) \<and>
     nearestTenths (digitsValue (ds @ [d])) (Dec m e)"
proof -
  define t where "t = scaled 1 (Dec m e)"
  have f: "fixed1 (Dec m e) =
      (if m < 0 then [0x2D] else []) @ decimal (t div 10) @ [0x2E, word_of_nat (48 + t mod 10)]"
    unfolding fixed1_def Let_def t_def [symmetric]
    by (simp add: decimal_small MINUS_def DOT_def del: of_nat_add)
  have nt: "nearestTenths (digitsValue (decimal (t div 10) @ [word_of_nat (48 + t mod 10)])) (Dec m e)"
    unfolding digitsValue_tenths t_def by (rule nearestTenths_scaled)
  show ?thesis
  proof (intro exI conjI)
    show "fixed1 (Dec m e) =
      (if m < 0 then [0x2D] else []) @ decimal (t div 10) @ [0x2E, word_of_nat (48 + t mod 10)]"
      by (rule f)
    show "decimal (t div 10) \<noteq> []"
      by (rule decimal_not_Nil)
    show "list_all isDigit (decimal (t div 10))"
      by (rule decimal_digits)
    show "isDigit (word_of_nat (48 + t mod 10))"
      by (rule isDigit_digit) simp
    show "length (decimal (t div 10)) = 1 \<or> hd (decimal (t div 10)) \<noteq> 0x30"
      by (rule decimal_canonical)
    show "nearestTenths (digitsValue (decimal (t div 10) @ [word_of_nat (48 + t mod 10)])) (Dec m e)"
      by (rule nt)
  qed
qed

text \<open>
  C3: for an axis that is not null, with a number as score, the score line is the bullet,
  " Score: ", the score printed by \<open>toFixed(1)\<close> and " / 100"; with the host modelled from
  the spec the printed score is a sign, a decimal numeral with no leading zero, a point
  and exactly one digit, and its value is the number of tenths nearest to the score (62.37 prints as 62.4).
  Every tooltip is the score line alone or two lines, a raw-detail line that starts with
  the bullet and a space, then the score line. Without raw data it is the score line
  alone. When the raw detail of the axis is an array, each entry is formatted by
  \<open>formatRawEntry\<close>; the entries that give \<open>null\<close> (those that are nullish or whose
  value is nullish) and those that give the empty string are dropped; the raw-detail line
  is the bullet, a space, the first part left and then, for each further part in order,
  " | " and the part; if no part is left the tooltip is the score line alone. For a score
  of 62.3 and the raw value 26400 "acres burned" the tooltip is "\<bullet> 26,400 acres burned"
  and "\<bullet> Score: 62.3 / 100"; for the raw values 12 "bridges", \<open>null\<close> "tunnels" and
  3 "culverts" the raw-detail line is "\<bullet> 12 bridges | 3 culverts".
\<close>

theorem buildTooltipLabel_lines:
  "scoreLineOf (toFixed1 h x) =
     [0x2022, 0x20, 0x53, 0x63, 0x6F, 0x72, 0x65, 0x3A, 0x20] @ toFixed1 h x @
     [0x20, 0x2F, 0x20, 0x31, 0x30, 0x30] \<and>
   (\<exists>ds d. toFixed1 specHost (Dec m e) = (if m < 0 then [0x2D] else []) @ ds @ [0x2E, d] \<and>
      ds \<noteq> [] \<and> list_all isDigit ds \<and> isDigit d \<and> (length ds = 1 \<or> hd ds \<noteq> 0x30) \<and>
      nearestTenths (digitsValue (ds @ [d])) (Dec m e)) \<and>
   scoreLineOf (toFixed1 specHost (Dec 6237 2)) =
     [0x2022, 0x20, 0x53, 0x63, 0x6F, 0x72, 0x65, 0x3A, 0x20,
      0x36, 0x32, 0x2E, 0x34, 0x20, 0x2F, 0x20, 0x31, 0x30, 0x30] \<and>
   (buildTooltipLabel h label (JNum x) False rawData = Inr t \<longrightarrow>
      t = Text (scoreLineOf (toFixed1 h x)) \<or>
      (\<exists>rawText. t = Lines [[0x2022, 0x20] @ rawText, scoreLineOf (toFixed1 h x)])) \<and>
   (\<not> truthy h rawData \<longrightarrow>
      buildTooltipLabel h label (JNum x) False rawData = Inr (Text (scoreLineOf (toFixed1 h x)))) \<and>
   (truthy h rawData \<longrightarrow> HasProperty label rawData = Inr True \<longrightarrow>
    Get rawData label = Inr (JArr es) \<longrightarrow> collect (map (formatRawEntry h) es) = Inr ps \<longrightarrow>
      buildTooltipLabel h label (JNum x) False rawData =
        Inr (if filterBoolean ps = [] then Text (scoreLineOf (toFixed1 h x))
             else Lines [[0x2022, 0x20] @ hd (filterBoolean ps) @
                           concat (map (\<lambda>q. [0x20, 0x7C, 0x20] @ q) (tl (filterBoolean ps))),
                         scoreLineOf (toFixed1 h x)]) \<and>
      length ps = length es \<and>
      (\<forall>i<length es.
         formatRawEntry h (es ! i) = Inr (ps ! i) \<and>
         (ps ! i = None) =
           (isNullish (es ! i) \<or> Get (es ! i) (js ''value'') = Inr JNull
              \<or> Get (es ! i) (js ''value'') = Inr JUndefined)) \<and>
      filterBoolean ps =
        concat (map (\<lambda>p. case p of None \<Rightarrow> [] | Some s \<Rightarrow> if s = [] then [] else [s]) ps)) \<and>
   buildTooltipLabel specHost (js ''Acres'') (JNum (Dec 623 1)) False
     (JObj [(js ''Acres'',
        JObj [(js ''value'', JNum (Dec 26400 0)), (js ''metric'', JStr (js ''acres burned''))])]) =
     Inr (Lines [[0x2022, 0x20, 0x32, 0x36, 0x2C, 0x34, 0x30, 0x30, 0x20] @ js ''acres burned'',
                 [0x2022, 0x20, 0x53, 0x63, 0x6F, 0x72, 0x65, 0x3A, 0x20,
                  0x36, 0x32, 0x2E, 0x33, 0x20, 0x2F, 0x20, 0x31, 0x30, 0x30]]) \<and>
   buildTooltipLabel specHost (js ''Crossings'') (JNum (Dec 623 1)) False
     (JObj [(js ''Crossings'',
        JArr [JObj [(js ''value'', JNum (Dec 12 0)), (js ''metric'', JStr (js ''bridges''))],
              JObj [(js ''value'', JNull), (js ''metric'', JStr (js ''tunnels''))],
              JObj [(js ''value'', JNum (Dec 3 0)), (js ''metric'', JStr (js ''culverts''))]])]) =
     Inr (Lines [[0x2022, 0x20] @ js ''12 bridges'' @ [0x20, 0x7C, 0x20] @ js ''3 culverts'',
                 [0x2022, 0x20, 0x53, 0x63, 0x6F, 0x72, 0x65, 0x3A, 0x20,
                  0x36, 0x32, 0x2E, 0x33, 0x20, 0x2F, 0x20, 0x31, 0x30, 0x30]])"
proof (intro conjI impI)
  show "scoreLineOf (toFixed1 h x) =
     [0x2022, 0x20, 0x53, 0x63, 0x6F, 0x72, 0x65, 0x3A, 0x20] @ toFixed1 h x @
     [0x20, 0x2F, 0x20, 0x31, 0x30, 0x30]"
    by (simp add: scoreLineOf_def BULLET_def js_def)
next
  show "\<exists>ds d. toFixed1 specHost (Dec m e) = (if m < 0 then [0x2D] else []) @ ds @ [0x2E, d] \<and>
      ds \<noteq> [] \<and> list_all isDigit ds \<and> isDigit d \<and> (length ds = 1 \<or> hd ds \<noteq> 0x30) \<and>
      nearestTenths (digitsValue (ds @ [d])) (Dec m e)"
    using fixed1_shape [of m e] by (simp add: specHost_def)
next
  show "scoreLineOf (toFixed1 specHost (Dec 6237 2)) =
     [0x2022, 0x20, 0x53, 0x63, 0x6F, 0x72, 0x65, 0x3A, 0x20,
      0x36, 0x32, 0x2E, 0x34, 0x20, 0x2F, 0x20, 0x31, 0x30, 0x30]"
    by (simp add: scoreLineOf_def BULLET_def spec_eval)
next
  assume "buildTooltipLabel h label (JNum x) False rawData = Inr t"
  from buildTooltipLabel_shape [OF this]
  show "t = Text (scoreLineOf (toFixed1 h x)) \<or>
      (\<exists>rawText. t = Lines [[0x2022, 0x20] @ rawText, scoreLineOf (toFixed1 h x)])"
    by (simp add: BULLET_def SP_def)
next
  assume "\<not> truthy h rawData"
  then show "buildTooltipLabel h label (JNum x) False rawData =
      Inr (Text (scoreLineOf (toFixed1 h x)))"
    by (simp add: buildTooltipLabel_def)
next
  assume a: "truthy h rawData" "HasProperty label rawData = Inr True"
    "Get rawData label = Inr (JArr es)" "collect (map (formatRawEntry h) es) = Inr ps"
  have sep: "js '' | '' = [0x20, 0x7C, 0x20]"
    by (simp add: js_def)
  have b: "[BULLET, SP] = [0x2022, 0x20]"
    by (simp add: BULLET_def SP_def)
  note res = buildTooltipLabel_array [OF a, of x]
  show "buildTooltipLabel h label (JNum x) False rawData =
        Inr (if filterBoolean ps = [] then Text (scoreLineOf (toFixed1 h x))
             else Lines [[0x2022, 0x20] @ hd (filterBoolean ps) @
                           concat (map (\<lambda>q. [0x20, 0x7C, 0x20] @ q) (tl (filterBoolean ps))),
                         scoreLineOf (toFixed1 h x)])"
  proof (cases "filterBoolean ps = []")
    case True
    with res show ?thesis by simp
  next
    case False
    from res show ?thesis
      unfolding sep b js_join_concat [OF False, of "[0x20, 0x7C, 0x20]"] by simp
  qed
  show len: "length ps = length es"
    using length_collect [OF a(4)] by simp
  show "\<forall>i<length es.
         formatRawEntry h (es ! i) = Inr (ps ! i) \<and>
         (ps ! i = None) =
           (isNullish (es ! i) \<or> Get (es ! i) (js ''value'') = Inr JNull
              \<or> Get (es ! i) (js ''value'') = Inr JUndefined)"
  proof (intro allI impI)
    fix i assume i: "i < length es"
    with nth_collect [OF a(4), of i] have f: "formatRawEntry h (es ! i) = Inr (ps ! i)"
      by simp
    with formatRawEntry_None_iff [of h "es ! i"]
    show "formatRawEntry h (es ! i) = Inr (ps ! i) \<and>
         (ps ! i = None) =
           (isNullish (es ! i) \<or> Get (es ! i) (js ''value'') = Inr JNull
              \<or> Get (es ! i) (js ''value'') = Inr JUndefined)"
      by simp
  qed
  show "filterBoolean ps =
        concat (map (\<lambda>p. case p of None \<Rightarrow> [] | Some s \<Rightarrow> if s = [] then [] else [s]) ps)"
    by (rule filterBoolean_concat)
next
  show "buildTooltipLabel specHost (js ''Acres'') (JNum (Dec 623 1)) False
     (JObj [(js ''Acres'',
        JObj [(js ''value'', JNum (Dec 26400 0)), (js ''metric'', JStr (js ''acres burned''))])]) =
     Inr (Lines [[0x2022, 0x20, 0x32, 0x36, 0x2C, 0x34, 0x30, 0x30, 0x20] @ js ''acres burned'',
                 [0x2022, 0x20, 0x53, 0x63, 0x6F, 0x72, 0x65, 0x3A, 0x20,
                  0x36, 0x32, 0x2E, 0x33, 0x20, 0x2F, 0x20, 0x31, 0x30, 0x30]])"
    by (simp add: buildTooltipLabel_def formatRawEntry_def scoreLineOf_def BULLET_def SP_def
        spec_eval)
next
  show "buildTooltipLabel specHost (js ''Crossings'') (JNum (Dec 623 1)) False
     (JObj [(js ''Crossings'',
        JArr [JObj [(js ''value'', JNum (Dec 12 0)), (js ''metric'', JStr (js ''bridges''))],
              JObj [(js ''value'', JNull), (js ''metric'', JStr (js ''tunnels''))],
              JObj [(js ''value'', JNum (Dec 3 0)), (js ''metric'', JStr (js ''culverts''))]])]) =
     Inr (Lines [[0x2022, 0x20] @ js ''12 bridges'' @ [0x20, 0x7C, 0x20] @ js ''3 culverts'',
                 [0x2022, 0x20, 0x53, 0x63, 0x6F, 0x72, 0x65, 0x3A, 0x20,
                  0x36, 0x32, 0x2E, 0x33, 0x20, 0x2F, 0x20, 0x31, 0x30, 0x30]])"
    by (simp add: buildTooltipLabel_def formatRawEntry_def scoreLineOf_def filterBoolean_def
        BULLET_def SP_def spec_eval)
qed

theorem buildTooltipLabel_lines_witness:
  "truthy specHost
     (JObj [(js ''Structures'',
        JArr [JObj [(js ''value'', JNum (Dec 2500 0)), (js ''metric'', JStr (js ''homes''))],
              JObj [(js ''value'', JNull), (js ''metric'', JStr (js ''barns''))],
              JObj [(js ''value'', JNum (Dec 14 0)), (js ''metric'', JStr [])]])]) \<and>
   HasProperty (js ''Structures'')
     (JObj [(js ''Structures'',
        JArr [JObj [(js ''value'', JNum (Dec 2500 0)), (js ''metric'', JStr (js ''homes''))],
              JObj [(js ''value'', JNull), (js ''metric'', JStr (js ''barns''))],
              JObj [(js ''value'', JNum (Dec 14 0)), (js ''metric'', JStr [])]])]) =
     Inr True \<and>
   collect (map (formatRawEntry specHost)
     [JObj [(js ''value'', JNum (Dec 2500 0)), (js ''metric'', JStr (js ''homes''))],
      JObj [(js ''value'', JNull), (js ''metric'', JStr (js ''barns''))],
      JObj [(js ''value'', JNum (Dec 14 0)), (js ''metric'', JStr [])]]) =
     Inr [Some (js ''2,500 homes''), None, Some (js ''14'')] \<and>
   buildTooltipLabel specHost (js ''Structures'') (JNum (Dec 7996 2)) False
     (JObj [(js ''Structures'',
        JArr [JObj [(js ''value'', JNum (Dec 2500 0)), (js ''metric'', JStr (js ''homes''))],
              JObj [(js ''value'', JNull), (js ''metric'', JStr (js ''barns''))],
              JObj [(js ''value'', JNum (Dec 14 0)), (js ''metric'', JStr [])]])]) =
     Inr (Lines [[0x2022, 0x20] @ js ''2,500 homes'' @ [0x20, 0x7C, 0x20] @ js ''14'',
                 [0x2022, 0x20, 0x53, 0x63, 0x6F, 0x72, 0x65, 0x3A, 0x20,
                  0x38, 0x30, 0x2E, 0x30, 0x20, 0x2F, 0x20, 0x31, 0x30, 0x30]])"
proof -
  let ?es = "[JObj [(js ''value'', JNum (Dec 2500 0)), (js ''metric'', JStr (js ''homes''))],
              JObj [(js ''value'', JNull), (js ''metric'', JStr (js ''barns''))],
              JObj [(js ''value'', JNum (Dec 14 0)), (js ''metric'', JStr [])]]"
  let ?raw = "JObj [(js ''Structures'', JArr ?es)]"
  let ?ps = "[Some (js ''2,500 homes''), None, Some (js ''14'')]"
  have t: "truthy specHost ?raw"
    by simp
  have p: "HasProperty (js ''Structures'') ?raw = Inr True"
    by simp
  have g: "Get ?raw (js ''Structures'') = Inr (JArr ?es)"
    by simp
  have e1: "formatRawEntry specHost
              (JObj [(js ''value'', JNum (Dec 2500 0)), (js ''metric'', JStr (js ''homes''))]) =
            Inr (Some (js ''2,500 homes''))"
    by (simp add: formatRawEntry_def SP_def spec_eval)
  have e2: "formatRawEntry specHost
              (JObj [(js ''value'', JNull), (js ''metric'', JStr (js ''barns''))]) = Inr None"
    by (simp add: formatRawEntry_def)
  have e3: "formatRawEntry specHost
              (JObj [(js ''value'', JNum (Dec 14 0)), (js ''metric'', JStr [])]) =
            Inr (Some (js ''14''))"
    by (simp add: formatRawEntry_def SP_def spec_eval)
  have c: "collect (map (formatRawEntry specHost) ?es) = Inr ?ps"
    by (simp add: e1 e2 e3)
  have f: "filterBoolean ?ps = [js ''2,500 homes'', js ''14'']"
    by (simp add: filterBoolean_def js_def)
  have s: "scoreLineOf (toFixed1 specHost (Dec 7996 2)) =
             [0x2022, 0x20, 0x53, 0x63, 0x6F, 0x72, 0x65, 0x3A, 0x20,
              0x38, 0x30, 0x2E, 0x30, 0x20, 0x2F, 0x20, 0x31, 0x30, 0x30]"
    by (simp add: scoreLineOf_def BULLET_def spec_eval)
  from buildTooltipLabel_lines [where h = specHost and x = "Dec 7996 2" and m = 0 and e = 0
      and label = "js ''Structures''" and rawData = ?raw and es = ?es and ps = ?ps] t p g c
  have "buildTooltipLabel specHost (js ''Structures'') (JNum (Dec 7996 2)) False ?raw =
        Inr (if filterBoolean ?ps = [] then Text (scoreLineOf (toFixed1 specHost (Dec 7996 2)))
             else Lines [[0x2022, 0x20] @ hd (filterBoolean ?ps) @
                           concat (map (\<lambda>q. [0x20, 0x7C, 0x20] @ q) (tl (filterBoolean ?ps))),
                         scoreLineOf (toFixed1 specHost (Dec 7996 2))])"
    by blast
  then have "buildTooltipLabel specHost (js ''Structures'') (JNum (Dec 7996 2)) False ?raw =
     Inr (Lines [[0x2022, 0x20] @ js ''2,500 homes'' @ [0x20, 0x7C, 0x20] @ js ''14'',
                 [0x2022, 0x20, 0x53, 0x63, 0x6F, 0x72, 0x65, 0x3A, 0x20,
                  0x38, 0x30, 0x2E, 0x30, 0x20, 0x2F, 0x20, 0x31, 0x30, 0x30]])"
    unfolding f s by simp
  with t p c show ?thesis
    by (intro conjI)
qed

end
